theory Spec2Isabelle
  imports Complex_Main
begin

section \<open>Strings and JavaScript values\<close>

text \<open>
  JavaScript strings are modelled as \<^typ>\<open>string\<close>; the development covers ASCII text (the
  header names, field names and cell values of delimited files). A property that is
  \<open>null\<close>, \<open>undefined\<close> or absent is \<open>None\<close>: the source never tells the three apart
  (it tests truthiness, and the encoder maps \<open>null\<close> and \<open>undefined\<close> to the same output).
  A string is truthy iff it is not empty.
\<close>

definition truthy :: "string option \<Rightarrow> bool" where
  "truthy v = (case v of None \<Rightarrow> False | Some s \<Rightarrow> s \<noteq> [])"

text \<open>\<open>String.prototype.startsWith\<close> and \<open>String.prototype.includes\<close> (a keyword of Isabelle, hence \<open>str_includes\<close>).\<close>

fun startsWith :: "string \<Rightarrow> string \<Rightarrow> bool" where
  "startsWith s [] = True"
| "startsWith [] (p # ps) = False"
| "startsWith (c # cs) (p # ps) = (c = p \<and> startsWith cs ps)"

fun str_includes :: "string \<Rightarrow> string \<Rightarrow> bool" where
  "str_includes [] p = (p = [])"
| "str_includes (c # cs) p = (startsWith (c # cs) p \<or> str_includes cs p)"

text \<open>\<open>toLowerCase\<close> and \<open>toUpperCase\<close> on ASCII letters; every other character is kept.\<close>

definition upperLetters :: string where
  "upperLetters = ''ABCDEFGHIJKLMNOPQRSTUVWXYZ''"

definition lowerLetters :: string where
  "lowerLetters = ''abcdefghijklmnopqrstuvwxyz''"

definition toLowerCase :: "string \<Rightarrow> string" where
  "toLowerCase s =
     map (\<lambda>c. case map_of (zip upperLetters lowerLetters) c of None \<Rightarrow> c | Some d \<Rightarrow> d) s"

definition toUpperCase :: "string \<Rightarrow> string" where
  "toUpperCase s =
     map (\<lambda>c. case map_of (zip lowerLetters upperLetters) c of None \<Rightarrow> c | Some d \<Rightarrow> d) s"

text \<open>\<open>Array.prototype.join\<close> on strings.\<close>

fun join :: "string \<Rightarrow> string list \<Rightarrow> string" where
  "join sep [] = []"
| "join sep [x] = x"
| "join sep (x # y # ys) = x @ sep @ join sep (y # ys)"

section \<open>The schema and the required fields (schemaDefinition.js, ipdr.service.js)\<close>

record schemaField =
  label :: string
  required :: bool
  description :: string

text \<open>The object \<open>schema\<close> of schemaDefinition.js, in key order.\<close>

definition schemaDefinition :: "(string \<times> schemaField) list" where
  "schemaDefinition =
    [(''a_party_id'', \<lparr>label = ''Subscriber ID'', required = True,
        description = ''The unique ID for the user (e.g., MSISDN, UserID).''\<rparr>),
     (''start_time'', \<lparr>label = ''Session Start Time'', required = True,
        description = ''When the data session began.''\<rparr>),
     (''end_time'', \<lparr>label = ''Session End Time'', required = False,
        description = ''When the data session ended.''\<rparr>),
     (''duration_ms'', \<lparr>label = ''Duration (ms)'', required = False,
        description = ''The length of the session in milliseconds.''\<rparr>),
     (''dst_ip'', \<lparr>label = ''Destination IP'', required = True,
        description = ''The B-Party's IP address.''\<rparr>),
     (''dst_port'', \<lparr>label = ''Destination Port'', required = True,
        description = ''The B-Party's port.''\<rparr>),
     (''nat_ip'', \<lparr>label = ''Public/NAT IP'', required = False,
        description = ''The user's public-facing IP address.''\<rparr>),
     (''src_ip'', \<lparr>label = ''Private/Source IP'', required = False,
        description = ''The user's internal device IP.''\<rparr>),
     (''bytes_up'', \<lparr>label = ''Data Uploaded (Bytes)'', required = False,
        description = ''Bytes sent from the user.''\<rparr>),
     (''bytes_down'', \<lparr>label = ''Data Downloaded (Bytes)'', required = False,
        description = ''Bytes received by the user.''\<rparr>),
     (''protocol'', \<lparr>label = ''Protocol'', required = False,
        description = ''e.g., TCP, UDP.''\<rparr>)]"

text \<open>
  The schema's own required subset, as getSuggestedMapping computes it:
  \<open>Object.keys(schemaDefinition).filter((field) => schemaDefinition[field].required)\<close>.
\<close>

definition schemaRequiredFields :: "string list" where
  "schemaRequiredFields = map fst (filter (\<lambda>(k, d). required d) schemaDefinition)"

text \<open>The constant \<open>REQUIRED_FIELDS\<close> of ipdr.service.js: field and message, in key order.\<close>

definition REQUIRED_FIELDS :: "(string \<times> string) list" where
  "REQUIRED_FIELDS =
    [(''a_party_id'', ''Subscriber identifier is absolutely required for IPDR analysis''),
     (''src_ip'', ''Source IP is required to identify the subscriber's network endpoint''),
     (''dst_ip'', ''Destination IP is required to identify what service was accessed''),
     (''dst_port'', ''Destination port is required to identify the service type''),
     (''start_time'', ''Session start time is required for temporal analysis'')]"

text \<open>\<open>Object.keys\<close> of one of these tables.\<close>

definition keys :: "(string \<times> 'a) list \<Rightarrow> string list" where
  "keys obj = map fst obj"

section \<open>Validation of a column mapping (validateRequiredFields)\<close>

text \<open>
  A column mapping sends a canonical field name to a header name. The source tests
  \<open>!mapping[f] || mapping[f] === null\<close>: a field counts as mapped iff its entry is truthy.
\<close>

type_synonym columnMapping = "string \<rightharpoonup> string"

definition isMapped :: "columnMapping \<Rightarrow> string \<Rightarrow> bool" where
  "isMapped m f = (\<not> (\<not> truthy (m f) \<or> m f = None))"

record issue =
  field :: string
  message :: string
  severity :: string

record validationReport =
  isValid :: bool
  errors :: "issue list"
  warnings :: "issue list"
  requiredFieldsCount :: nat
  mappedRequiredCount :: nat

definition IMPORTANT_OPTIONAL :: "string list" where
  "IMPORTANT_OPTIONAL = [''bytes_up'', ''bytes_down'', ''protocol'']"

text \<open>The first \<open>forEach\<close>: one error is pushed for each required field that is not mapped.\<close>

definition requiredErrors :: "columnMapping \<Rightarrow> issue list" where
  "requiredErrors mapping =
     foldl (\<lambda>errs (requiredField, msg).
              if \<not> isMapped mapping requiredField
              then errs @ [\<lparr>field = requiredField, message = msg, severity = ''error''\<rparr>]
              else errs)
       [] REQUIRED_FIELDS"

text \<open>The second \<open>forEach\<close>: one warning for each important optional field that is not mapped.\<close>

definition optionalWarnings :: "columnMapping \<Rightarrow> issue list" where
  "optionalWarnings mapping =
     foldl (\<lambda>ws f.
              if \<not> isMapped mapping f
              then ws @ [\<lparr>field = f,
                     message = f @ '' is not mapped - data volume/protocol analysis will be limited'',
                     severity = ''warning''\<rparr>]
              else ws)
       [] IMPORTANT_OPTIONAL"

text \<open>The session-identifier heuristic on the header mapped to \<open>a_party_id\<close>.\<close>

definition sessionWarning :: "columnMapping \<Rightarrow> issue list" where
  "sessionWarning mapping =
     (if truthy (mapping ''a_party_id'') then
        (let mappedHeader = toLowerCase (the (mapping ''a_party_id'')) in
         if str_includes mappedHeader ''session'' \<and> \<not> str_includes mappedHeader ''subscriber''
            \<and> \<not> str_includes mappedHeader ''msisdn'' \<and> \<not> str_includes mappedHeader ''imsi''
         then [\<lparr>field = ''a_party_id'',
                message = ''Mapped field appears to be session ID rather than subscriber ID - this may limit subscriber analysis'',
                severity = ''warning''\<rparr>]
         else [])
      else [])"

definition validateRequiredFields :: "columnMapping \<Rightarrow> string list \<Rightarrow> validationReport" where
  "validateRequiredFields mapping fileHeaders =
     (let errs = requiredErrors mapping;
          warns = optionalWarnings mapping @ sessionWarning mapping
      in \<lparr>isValid = (length errs = 0),
          errors = errs,
          warnings = warns,
          requiredFieldsCount = length (keys REQUIRED_FIELDS),
          mappedRequiredCount = length (filter (isMapped mapping) (keys REQUIRED_FIELDS))\<rparr>)"

section \<open>Numbers, dates and the host environment\<close>

text \<open>
  A JavaScript number is \<open>NaN\<close> or an integer: the transformer only produces numbers by
  \<open>parseInt\<close>, by multiplying by 1000 and by subtracting two time values. Integers are
  unbounded here; the source's doubles agree with them up to \<open>2^53\<close>.
\<close>

datatype jsnum = NaN | Num int

definition isNaN :: "jsnum \<Rightarrow> bool" where
  "isNaN x = (case x of NaN \<Rightarrow> True | Num n \<Rightarrow> False)"

text \<open>\<open>x < y\<close>, \<open>x * y\<close> and \<open>x - y\<close> on numbers: a comparison with \<open>NaN\<close> is false.\<close>

definition jsLess :: "jsnum \<Rightarrow> jsnum \<Rightarrow> bool" where
  "jsLess x y = (case (x, y) of (Num a, Num b) \<Rightarrow> a < b | _ \<Rightarrow> False)"

definition jsTimes :: "jsnum \<Rightarrow> jsnum \<Rightarrow> jsnum" where
  "jsTimes x y = (case (x, y) of (Num a, Num b) \<Rightarrow> Num (a * b) | _ \<Rightarrow> NaN)"

definition jsMinus :: "jsnum \<Rightarrow> jsnum \<Rightarrow> jsnum" where
  "jsMinus x y = (case (x, y) of (Num a, Num b) \<Rightarrow> Num (a - b) | _ \<Rightarrow> NaN)"

definition isWhiteSpace :: "char \<Rightarrow> bool" where
  "isWhiteSpace c = (c \<in> set [CHR '' '', CHR 0x09, CHR 0x0A, CHR 0x0B, CHR 0x0C, CHR 0x0D])"

definition digitVal :: "char \<Rightarrow> nat option" where
  "digitVal c =
     map_of (zip ''0123456789abcdefABCDEF''
                 [0, 1, 2, 3, 4, 5, 6, 7, 8, 9, 10, 11, 12, 13, 14, 15, 10, 11, 12, 13, 14, 15]) c"

definition hasDigit :: "nat \<Rightarrow> string \<Rightarrow> bool" where
  "hasDigit R s =
     (case s of [] \<Rightarrow> False
      | c # cs \<Rightarrow> (case digitVal c of None \<Rightarrow> False | Some d \<Rightarrow> d < R))"

fun parseDigits :: "nat \<Rightarrow> nat \<Rightarrow> string \<Rightarrow> nat" where
  "parseDigits R acc [] = acc"
| "parseDigits R acc (c # cs) =
     (case digitVal c of
        None \<Rightarrow> acc
      | Some d \<Rightarrow> if d < R then parseDigits R (acc * R + d) cs else acc)"

text \<open>
  The built-in \<open>parseInt(string, radix)\<close>, for the two ways the source calls it: with radix
  10 (\<open>Some 10\<close>) and without a radix (\<open>None\<close>), where a \<open>0x\<close> prefix selects radix 16.
  Leading white space is skipped, one sign is read, then the longest run of digits; no digit
  gives \<open>NaN\<close>. The value is the exact integer the digits denote; the built-in returns
  the nearest double, which is that integer up to \<open>2^53 = 9007199254740992\<close> in absolute
  value, so statements about the value carry that bound.
\<close>

definition parseInt :: "string \<Rightarrow> nat option \<Rightarrow> jsnum" where
  "parseInt str radix =
     (let s = dropWhile isWhiteSpace str;
          neg = startsWith s ''-'';
          s1 = (if startsWith s ''+'' \<or> startsWith s ''-'' then tl s else s);
          stripPrefix = (radix = None \<or> radix = Some 16);
          hex = (stripPrefix \<and> (startsWith s1 ''0x'' \<or> startsWith s1 ''0X''));
          R = (if hex then 16 else (case radix of None \<Rightarrow> 10 | Some r \<Rightarrow> r));
          s2 = (if hex then drop 2 s1 else s1)
      in if hasDigit R s2
         then Num ((if neg then - 1 else 1) * int (parseDigits R 0 s2))
         else NaN)"

text \<open>
  \<open>String(n)\<close> for an integer: decimal digits, with a minus sign below zero. The built-in
  writes the digits below \<open>10^21\<close> in absolute value and an exponent form from there on
  (digits, a point, \<open>e+\<close>), which this model does not produce.
\<close>

definition digitChar :: "nat \<Rightarrow> char" where
  "digitChar d = ''0123456789'' ! d"

function showNat :: "nat \<Rightarrow> string" where
  "showNat n = (if n < 10 then [digitChar n] else showNat (n div 10) @ [digitChar (n mod 10)])"
  by pat_completeness auto
termination
  by (relation "measure (\<lambda>n. n)") auto

declare showNat.simps [simp del]

definition showInt :: "int \<Rightarrow> string" where
  "showInt i = (if i < 0 then ''-'' @ showNat (nat (- i)) else showNat (nat i))"

definition numberToString :: "jsnum \<Rightarrow> string" where
  "numberToString x = (case x of NaN \<Rightarrow> ''NaN'' | Num n \<Rightarrow> showInt n)"

text \<open>
  What the transformer takes from its host. \<open>Date.parse\<close> (and \<open>new Date(string)\<close>, which
  parses the same way) gives a time value in milliseconds or \<open>NaN\<close>; its grammar is the
  engine's, so it is a parameter. \<open>Date_now\<close> and \<open>Math_random_suffix\<close> are the clock and the
  text \<open>Math.random().toString(36).substr(2, 9)\<close> at the k-th row of the run.
  \<open>toISOString\<close> is the text of a valid time value; on an invalid date the built-in throws
  a RangeError, which the encoder below makes explicit.
\<close>

record host =
  Date_parse :: "string \<Rightarrow> jsnum"
  Date_now :: "nat \<Rightarrow> int"
  Math_random_suffix :: "nat \<Rightarrow> string"
  toISOString :: "int \<Rightarrow> string"

datatype jsError = RangeError | Error string

section \<open>The record transformer (class IPDRProcessor)\<close>

type_synonym rawRecord = "string \<rightharpoonup> string"

text \<open>
  \<open>mappedValues\<close> is the object built by \<open>_extractMappedValues\<close>; \<open>mappedValues.start_time\<close>
  is \<open>mappedValues ''start_time''\<close>, and \<open>None\<close> is \<open>null\<close> or \<open>undefined\<close>.
\<close>

type_synonym mappedValues = "string \<Rightarrow> string option"

definition extractedFields :: "string list" where
  "extractedFields =
     [''a_party_id'', ''start_time'', ''end_time'', ''duration_ms'', ''src_ip'', ''src_port'',
      ''nat_ip'', ''nat_port'', ''dst_ip'', ''dst_port'', ''protocol'', ''bytes_up'',
      ''bytes_down'']"

definition extractMappedValues :: "columnMapping \<Rightarrow> rawRecord \<Rightarrow> mappedValues" where
  "extractMappedValues m rawRecord =
     (\<lambda>f. if f \<in> set extractedFields
          then (if truthy (m f) then rawRecord (the (m f)) else None)
          else None)"

subsection \<open>\<open>_isValidIP\<close>\<close>

definition isDigit :: "char \<Rightarrow> bool" where
  "isDigit c = (c \<in> set ''0123456789'')"

definition isHexDigit :: "char \<Rightarrow> bool" where
  "isHexDigit c = (c \<in> set ''0123456789abcdefABCDEF'')"

text \<open>\<open>String.prototype.split\<close> at one character.\<close>

fun splitOn :: "char \<Rightarrow> string \<Rightarrow> string list" where
  "splitOn c [] = [[]]"
| "splitOn c (x # xs) =
     (if x = c then [] # splitOn c xs
      else (case splitOn c xs of [] \<Rightarrow> [[x]] | p # ps \<Rightarrow> (x # p) # ps))"

text \<open>The alternatives \<open>25[0-5]|2[0-4][0-9]|[01]?[0-9][0-9]?\<close> of one group of the IPv4 pattern.\<close>

definition isOctet :: "string \<Rightarrow> bool" where
  "isOctet s =
     (case s of
        [a] \<Rightarrow> isDigit a
      | [a, b] \<Rightarrow> isDigit a \<and> isDigit b
      | [a, b, c] \<Rightarrow>
          (a = CHR ''2'' \<and> b = CHR ''5'' \<and> c \<in> set ''012345'')
          \<or> (a = CHR ''2'' \<and> b \<in> set ''01234'' \<and> isDigit c)
          \<or> (a \<in> set ''01'' \<and> isDigit b \<and> isDigit c)
      | _ \<Rightarrow> False)"

text \<open>
  \<open>ipv4Regex.test\<close>: the pattern is anchored at both ends, so it accepts exactly four
  groups separated by three dots. \<open>ipv6Regex.test\<close>: eight groups of one to four
  hexadecimal digits separated by colons.
\<close>

definition ipv4Regex_test :: "string \<Rightarrow> bool" where
  "ipv4Regex_test ip = (let parts = splitOn CHR ''.'' ip in length parts = 4 \<and> list_all isOctet parts)"

definition ipv6Regex_test :: "string \<Rightarrow> bool" where
  "ipv6Regex_test ip =
     (let parts = splitOn CHR '':'' ip
      in length parts = 8
         \<and> list_all (\<lambda>p. 1 \<le> length p \<and> length p \<le> 4 \<and> list_all isHexDigit p) parts)"

definition isValidIP :: "string \<Rightarrow> bool" where
  "isValidIP ip = (ipv4Regex_test ip \<or> ipv6Regex_test ip \<or> str_includes ip '':'')"

subsection \<open>\<open>_validateRecord\<close>\<close>

record recordValidation =
  recIsValid :: bool
  recErrors :: "string list"

text \<open>The \<open>forEach\<close> over the required fields: the value must be truthy and not a null marker.\<close>

definition missingRequired :: "mappedValues \<Rightarrow> string list" where
  "missingRequired mv =
     foldl (\<lambda>errs (f, msg).
              let v = mv f in
              if \<not> truthy v \<or> v = Some '''' \<or> v = Some ''null'' \<or> v = Some ''NULL''
              then errs @ [''Missing required field: '' @ f @ '' ('' @ msg @ '')'']
              else errs)
       [] REQUIRED_FIELDS"

definition validateRecord :: "host \<Rightarrow> mappedValues \<Rightarrow> rawRecord \<Rightarrow> recordValidation" where
  "validateRecord h mv rawRecord =
     (let e1 = missingRequired mv;
          e2 = (if truthy (mv ''start_time'') \<and> isNaN (Date_parse h (the (mv ''start_time'')))
                then e1 @ [''Invalid start_time format''] else e1);
          e3 = (if truthy (mv ''dst_port'')
                   \<and> (isNaN (parseInt (the (mv ''dst_port'')) None)
                      \<or> jsLess (parseInt (the (mv ''dst_port'')) None) (Num 1))
                then e2 @ [''Invalid dst_port - must be a positive number''] else e2);
          e4 = (if truthy (mv ''src_ip'') \<and> \<not> isValidIP (the (mv ''src_ip''))
                then e3 @ [''Invalid src_ip format''] else e3);
          e5 = (if truthy (mv ''dst_ip'') \<and> \<not> isValidIP (the (mv ''dst_ip''))
                then e4 @ [''Invalid dst_ip format''] else e4)
      in \<lparr>recIsValid = (length e5 = 0), recErrors = e5\<rparr>)"

subsection \<open>\<open>getServiceLabel\<close> and \<open>generateSessionIdentifier\<close>\<close>

definition portMap :: "(int \<times> string) list" where
  "portMap =
     [(80, ''HTTP/WEB''), (443, ''HTTPS/WEB''), (53, ''DNS''), (22, ''SSH''), (21, ''FTP''),
      (25, ''SMTP''), (110, ''POP3''), (143, ''IMAP''), (993, ''IMAPS''), (995, ''POP3S''),
      (3306, ''MySQL''), (5432, ''PostgreSQL''), (6379, ''Redis''), (27017, ''MongoDB''),
      (8080, ''HTTP-ALT''), (8443, ''HTTPS-ALT''), (1194, ''OpenVPN''), (1723, ''PPTP''),
      (5060, ''SIP'')]"

text \<open>The argument is the number \<open>dstPort\<close> or \<open>null\<close>; \<open>parseInt\<close> reads its string form.\<close>

definition getServiceLabel :: "jsnum option \<Rightarrow> string" where
  "getServiceLabel port =
     (let portNum = parseInt (case port of None \<Rightarrow> ''null'' | Some x \<Rightarrow> numberToString x) (Some 10)
      in case portNum of
           NaN \<Rightarrow> ''UNKNOWN''
         | Num n \<Rightarrow> (case map_of portMap n of None \<Rightarrow> ''OTHER'' | Some l \<Rightarrow> l))"

text \<open>
  The argument object has the two properties \<open>start_time\<close> (a Date, given by its time value,
  or absent) and \<open>src_ip\<close>; \<open>k\<close> is the index of the row in the run.
\<close>

definition generateSessionIdentifier :: "host \<Rightarrow> nat \<Rightarrow> jsnum option \<Rightarrow> string option \<Rightarrow> string" where
  "generateSessionIdentifier h k rec_start_time rec_src_ip =
     (let timestamp = (case rec_start_time of Some t \<Rightarrow> t | None \<Rightarrow> Num (Date_now h k));
          srcInfo = (if truthy rec_src_ip then the rec_src_ip else ''unknown'')
      in srcInfo @ ''_'' @ numberToString timestamp @ ''_'' @ Math_random_suffix h k)"

subsection \<open>\<open>_processRecord\<close>\<close>

text \<open>
  The canonical record. A Date is given by its time value (\<open>NaN\<close> for an invalid date);
  \<open>None\<close> is \<open>null\<close> or \<open>undefined\<close>.
\<close>

record canonicalRecord =
  a_party_id :: string
  start_time :: jsnum
  end_time :: "jsnum option"
  duration_ms :: "jsnum option"
  src_ip :: "string option"
  src_port :: "jsnum option"
  nat_ip :: "string option"
  nat_port :: "jsnum option"
  dst_ip :: "string option"
  dst_port :: "jsnum option"
  protocol :: string
  service_label :: string
  bytes_up :: jsnum
  bytes_down :: jsnum

definition processRecord :: "host \<Rightarrow> nat \<Rightarrow> mappedValues \<Rightarrow> rawRecord \<Rightarrow> canonicalRecord" where
  "processRecord h k mv rawRecord =
     (let startTime = (if truthy (mv ''start_time'') then Date_parse h (the (mv ''start_time''))
                       else Num (Date_now h k));
          endTime = (if truthy (mv ''end_time'') then Some (Date_parse h (the (mv ''end_time'')))
                     else None);
          dstPort = (if truthy (mv ''dst_port'') then Some (parseInt (the (mv ''dst_port'')) (Some 10))
                     else None);
          duration =
            (if truthy (mv ''duration_ms'') then
               (let d = parseInt (the (mv ''duration_ms'')) (Some 10)
                in Some (if jsLess d (Num 1000000) then jsTimes d (Num 1000) else d))
             else (case endTime of
                     Some e \<Rightarrow> Some (jsMinus e startTime)
                   | None \<Rightarrow> None))
      in \<lparr>a_party_id =
            (if truthy (mv ''a_party_id'') then the (mv ''a_party_id'')
             else generateSessionIdentifier h k (Some startTime) (mv ''src_ip'')),
          start_time = startTime,
          end_time = endTime,
          duration_ms = duration,
          src_ip = mv ''src_ip'',
          src_port = (if truthy (mv ''src_port'') then Some (parseInt (the (mv ''src_port'')) (Some 10))
                      else None),
          nat_ip = mv ''nat_ip'',
          nat_port = (if truthy (mv ''nat_port'') then Some (parseInt (the (mv ''nat_port'')) (Some 10))
                      else None),
          dst_ip = mv ''dst_ip'',
          dst_port = dstPort,
          protocol = toUpperCase (if truthy (mv ''protocol'') then the (mv ''protocol'') else ''TCP''),
          service_label = getServiceLabel dstPort,
          bytes_up = (if truthy (mv ''bytes_up'') then parseInt (the (mv ''bytes_up'')) (Some 10)
                      else Num 0),
          bytes_down = (if truthy (mv ''bytes_down'') then parseInt (the (mv ''bytes_down'')) (Some 10)
                        else Num 0)\<rparr>)"

subsection \<open>\<open>_recordToCsv\<close>\<close>

text \<open>The values the encoder is applied to: \<open>null\<close> or \<open>undefined\<close>, a number, a Date, a string.\<close>

datatype jsval = JNull | JNum jsnum | JDate jsnum | JStr string

definition dquote :: char where
  "dquote = CHR 0x22"

definition newline :: char where
  "newline = CHR 0x0A"

text \<open>The escaping of a string form: \<open>strValue.replace(/"/g, '""')\<close> between two quotes.\<close>

definition csvEscape :: "string \<Rightarrow> string" where
  "csvEscape strValue =
     (if str_includes strValue '','' \<or> str_includes strValue [dquote] \<or> str_includes strValue [newline]
      then [dquote] @ concat (map (\<lambda>c. if c = dquote then [dquote, dquote] else [c]) strValue) @ [dquote]
      else strValue)"

definition toCsv :: "host \<Rightarrow> jsval \<Rightarrow> jsError + string" where
  "toCsv h v =
     (case v of
        JNull \<Rightarrow> Inr []
      | JNum x \<Rightarrow> (if isNaN x then Inr [] else Inr (csvEscape (numberToString x)))
      | JDate t \<Rightarrow> (case t of NaN \<Rightarrow> Inl RangeError | Num ms \<Rightarrow> Inr (toISOString h ms))
      | JStr s \<Rightarrow> Inr (csvEscape s))"

definition optNum :: "jsnum option \<Rightarrow> jsval" where
  "optNum v = (case v of None \<Rightarrow> JNull | Some x \<Rightarrow> JNum x)"

definition optDate :: "jsnum option \<Rightarrow> jsval" where
  "optDate v = (case v of None \<Rightarrow> JNull | Some t \<Rightarrow> JDate t)"

definition optStr :: "string option \<Rightarrow> jsval" where
  "optStr v = (case v of None \<Rightarrow> JNull | Some s \<Rightarrow> JStr s)"

text \<open>The array literal is evaluated left to right; the first exception leaves it.\<close>

fun collect :: "(jsError + string) list \<Rightarrow> jsError + string list" where
  "collect [] = Inr []"
| "collect (Inl e # rest) = Inl e"
| "collect (Inr s # rest) = (case collect rest of Inl e \<Rightarrow> Inl e | Inr ss \<Rightarrow> Inr (s # ss))"

definition recordToCsv :: "host \<Rightarrow> canonicalRecord \<Rightarrow> jsError + string" where
  "recordToCsv h r =
     (case collect
        [toCsv h (JStr (a_party_id r)),
         toCsv h (JDate (start_time r)),
         toCsv h (optDate (end_time r)),
         toCsv h (optNum (duration_ms r)),
         toCsv h (optStr (nat_ip r)),
         toCsv h (optNum (nat_port r)),
         toCsv h (optStr (src_ip r)),
         toCsv h (optNum (src_port r)),
         toCsv h (optStr (dst_ip r)),
         toCsv h (optNum (dst_port r)),
         toCsv h (JStr (protocol r)),
         toCsv h (JStr (service_label r)),
         toCsv h (JNum (bytes_up r)),
         toCsv h (JNum (bytes_down r))]
      of Inl e \<Rightarrow> Inl e
       | Inr fs \<Rightarrow> Inr (join '','' fs @ [newline]))"

subsection \<open>\<open>_transform\<close> and the run over the rows of a file\<close>

text \<open>
  One entry of \<open>validationErrors\<close>; its properties are \<open>record\<close>, \<open>errors\<close> and \<open>rawRecord\<close>
  in the source.
\<close>

record diagnostic =
  diagRecord :: nat
  diagErrors :: "string list"
  diagRawRecord :: rawRecord

record processor =
  mapping :: columnMapping
  recordCount :: nat
  errorCount :: nat
  validationErrors :: "diagnostic list"

text \<open>The constructor.\<close>

definition newProcessor :: "columnMapping \<Rightarrow> processor" where
  "newProcessor confirmedMapping =
     \<lparr>mapping = confirmedMapping, recordCount = 0, errorCount = 0, validationErrors = []\<rparr>"

text \<open>
  One call of \<open>_transform\<close>: the new state and the line pushed downstream, if any. The body
  is one \<open>try\<close> block; the only statement of it that can throw is the encoding of a Date,
  and the \<open>catch\<close> branch counts the error and calls back. The index of the row in the run
  is the number of rows seen so far.
\<close>

definition transform :: "host \<Rightarrow> processor \<Rightarrow> rawRecord \<Rightarrow> processor \<times> string option" where
  "transform h st rawRecord =
     (let mappedValues = extractMappedValues (mapping st) rawRecord;
          validation = validateRecord h mappedValues rawRecord
      in if \<not> recIsValid validation then
           (st\<lparr>errorCount := errorCount st + 1,
               validationErrors := validationErrors st @
                 [\<lparr>diagRecord = recordCount st + 1,
                   diagErrors = recErrors validation,
                   diagRawRecord = rawRecord\<rparr>]\<rparr>,
            None)
         else
           (let cleanRecord = processRecord h (recordCount st + errorCount st) mappedValues rawRecord
            in case recordToCsv h cleanRecord of
                 Inr csvLine \<Rightarrow> (st\<lparr>recordCount := recordCount st + 1\<rparr>, Some csvLine)
               | Inl error \<Rightarrow> (st\<lparr>errorCount := errorCount st + 1\<rparr>, None)))"

text \<open>The stream calls \<open>_transform\<close> once per row, in order; the lines pushed are collected.\<close>

fun runRows :: "host \<Rightarrow> processor \<Rightarrow> rawRecord list \<Rightarrow> processor \<times> string list" where
  "runRows h st [] = (st, [])"
| "runRows h st (r # rs) =
     (case transform h st r of
        (st', out) \<Rightarrow>
          (case runRows h st' rs of
             (st'', outs) \<Rightarrow> (st'', (case out of None \<Rightarrow> outs | Some l \<Rightarrow> l # outs))))"

subsection \<open>\<open>getProcessingStats\<close> and \<open>processFile\<close>\<close>

text \<open>
  \<open>Number.prototype.toFixed(2)\<close>: the integer \<open>n\<close> with \<open>n / 100\<close> nearest to the number, the
  larger one on a tie, printed with two decimals. The ratio is computed over the
  rationals; the built-in acts on the double nearest to it, so that the two may differ by
  one hundredth where the exact percentage lies halfway between two hundredths.
\<close>

definition toFixed2 :: "rat \<Rightarrow> string" where
  "toFixed2 x =
     (let n = nat \<lfloor>\<bar>x\<bar> * 100 + 1 / 2\<rfloor>;
          body = showNat (n div 100) @ ''.'' @ [digitChar (n mod 100 div 10), digitChar (n mod 10)]
      in if x < 0 then ''-'' @ body else body)"

text \<open>The properties \<open>errors\<close> and \<open>validationErrors\<close> of the source carry a prefix here.\<close>

record processingStats =
  totalProcessed :: nat
  stat_errors :: nat
  successRate :: jsval
  stat_validationErrors :: "diagnostic list"

definition getProcessingStats :: "processor \<Rightarrow> processingStats" where
  "getProcessingStats st =
     \<lparr>totalProcessed = recordCount st,
      stat_errors = errorCount st,
      successRate =
        (if recordCount st > 0
         then JStr (toFixed2 ((of_nat (recordCount st) / of_nat (recordCount st + errorCount st)) * 100))
         else JNum (Num 0)),
      stat_validationErrors = validationErrors st\<rparr>"

text \<open>
  \<open>processFile\<close> on the rows the parser delivers: the mapping is validated first, then the
  rows run through a new processor. The value is the thrown error or the object the
  promise resolves to. The console shows \<open>stats.validationErrors.slice(0, 5)\<close>.
\<close>

record fileResult =
  recordsProcessed :: nat
  result_errors :: nat
  result_successRate :: jsval
  result_validationErrors :: "diagnostic list"

definition firstFewValidationErrors :: "processingStats \<Rightarrow> diagnostic list" where
  "firstFewValidationErrors stats = take 5 (stat_validationErrors stats)"

definition processFile :: "host \<Rightarrow> columnMapping \<Rightarrow> rawRecord list \<Rightarrow> jsError + fileResult" where
  "processFile h confirmedMapping rows =
     (let validation = validateRequiredFields confirmedMapping []
      in if \<not> isValid validation
         then Inl (Error (''Cannot process file - required fields missing: ''
                          @ join '', '' (map field (errors validation))))
         else (let stats = getProcessingStats (fst (runRows h (newProcessor confirmedMapping) rows))
               in Inr \<lparr>recordsProcessed = totalProcessed stats,
                       result_errors = stat_errors stats,
                       result_successRate = successRate stats,
                       result_validationErrors = stat_validationErrors stats\<rparr>))"

section \<open>Fuzzy matching of headers (ai.service)\<close>

text \<open>
  Scores are rationals: the source's doubles \<open>1.0\<close>, \<open>0.8\<close> and \<open>(n - d) / n\<close> are only
  compared with each other and with \<open>0.7\<close> and \<open>0.6\<close>, and those comparisons come out the
  same on the exact values.
\<close>

definition FIELD_PATTERNS :: "(string \<times> string list) list" where
  "FIELD_PATTERNS =
    [(''a_party_id'',
        [''msisdn'', ''imsi'', ''subscriber_id'', ''user_id'', ''calling_party'', ''a_number'',
         ''mobile_number'', ''phone_number'', ''caller_id'', ''subscriber'', ''account_id'',
         ''customer_id'']),
     (''src_ip'',
        [''a_party_ip'', ''source_ip'', ''private_ip'', ''client_ip'', ''user_ip'', ''internal_ip'',
         ''local_ip'', ''originating_ip'']),
     (''dst_ip'',
        [''b_party_ip'', ''destination_ip'', ''dest_ip'', ''server_ip'', ''target_ip'', ''remote_ip'',
         ''external_ip'', ''called_ip'']),
     (''start_time'',
        [''start_time'', ''session_start'', ''begin_time'', ''call_start'', ''timestamp'',
         ''start_timestamp'', ''session_begin'', ''connection_start'']),
     (''end_time'',
        [''end_time'', ''session_end'', ''stop_time'', ''call_end'', ''finish_time'',
         ''end_timestamp'', ''session_stop'', ''connection_end'']),
     (''dst_port'',
        [''b_party_port'', ''destination_port'', ''dest_port'', ''server_port'', ''target_port'',
         ''remote_port'', ''called_port'']),
     (''protocol'', [''protocol'', ''l4_protocol'', ''transport_protocol'', ''ip_protocol'']),
     (''bytes_up'',
        [''bytes_up'', ''uplink_volume'', ''upload_bytes'', ''tx_bytes'', ''sent_bytes'',
         ''outbound_bytes'', ''upstream_bytes'']),
     (''bytes_down'',
        [''bytes_down'', ''downlink_volume'', ''download_bytes'', ''rx_bytes'', ''received_bytes'',
         ''inbound_bytes'', ''downstream_bytes'', ''bytes_transferred''])]"

text \<open>\<open>s.toLowerCase().replace(/[_\s-]/g, '')\<close>.\<close>

definition normalize :: "string \<Rightarrow> string" where
  "normalize s =
     filter (\<lambda>c. \<not> (c = CHR ''_'' \<or> isWhiteSpace c \<or> c = CHR ''-'')) (toLowerCase s)"

subsection \<open>\<open>levenshteinDistance\<close>\<close>

text \<open>
  The matrix is filled row by row. \<open>levCells c str1 prev left\<close> computes the cells
  \<open>matrix[j][i]\<close> for \<open>i = 1, 2, ...\<close> of the row of the character \<open>c = str2[j - 1]\<close>: \<open>prev\<close> is
  the part of row \<open>j - 1\<close> from column \<open>i - 1\<close> on and \<open>left\<close> is \<open>matrix[j][i - 1]\<close>.
\<close>

fun levCells :: "char \<Rightarrow> string \<Rightarrow> nat list \<Rightarrow> nat \<Rightarrow> nat list" where
  "levCells c (x # xs) (diag # up # prev) left =
     (let indicator = (if x = c then 0 else 1);
          cell = min (left + 1) (min (up + 1) (diag + indicator))
      in cell # levCells c xs (up # prev) cell)"
| "levCells c xs prev left = []"

text \<open>Row 0 is \<open>0, 1, ..., str1.length\<close>; row \<open>j\<close> starts with \<open>matrix[j][0] = j\<close>.\<close>

fun levRows :: "string \<Rightarrow> string \<Rightarrow> nat \<Rightarrow> nat list \<Rightarrow> nat list" where
  "levRows str1 [] j row = row"
| "levRows str1 (c # cs) j row = levRows str1 cs (j + 1) ((j + 1) # levCells c str1 row (j + 1))"

definition levenshteinDistance :: "string \<Rightarrow> string \<Rightarrow> nat" where
  "levenshteinDistance str1 str2 = last (levRows str1 str2 0 [0 ..< length str1 + 1])"

subsection \<open>\<open>calculateSimilarity\<close> and \<open>fuzzyMatchField\<close>\<close>

definition calculateSimilarity :: "string \<Rightarrow> string \<Rightarrow> rat" where
  "calculateSimilarity str1 str2 =
     (let longer = (if length str1 > length str2 then str1 else str2);
          shorter = (if length str1 > length str2 then str2 else str1)
      in if length longer = 0 then 1
         else (let editDistance = levenshteinDistance longer shorter
               in (of_nat (length longer) - of_nat editDistance) / of_nat (length longer)))"

text \<open>The loop over the patterns, with its three \<open>return\<close> statements.\<close>

fun matchPatterns :: "string \<Rightarrow> string list \<Rightarrow> rat" where
  "matchPatterns headerLower [] = 0"
| "matchPatterns headerLower (pattern # rest) =
     (let patternLower = normalize pattern in
      if headerLower = patternLower then 1
      else if str_includes headerLower patternLower \<or> str_includes patternLower headerLower
      then 8 / 10
      else (let similarity = calculateSimilarity headerLower patternLower
            in if similarity > 7 / 10 then similarity
               else matchPatterns headerLower rest))"

definition fuzzyMatchField :: "string \<Rightarrow> string list \<Rightarrow> rat" where
  "fuzzyMatchField header patterns = matchPatterns (normalize header) patterns"

subsection \<open>\<open>createFallbackMapping\<close>\<close>

text \<open>The inner \<open>forEach\<close> over the headers: the best header so far and its score.\<close>

definition bestHeader :: "string list \<Rightarrow> string list \<Rightarrow> string option \<times> rat" where
  "bestHeader patterns fileHeaders =
     foldl (\<lambda>(bestMatch, bestScore) header.
              let score = fuzzyMatchField header patterns in
              if score > bestScore \<and> score > 6 / 10 then (Some header, score)
              else (bestMatch, bestScore))
       (None, 0) fileHeaders"

definition createFallbackMapping :: "string list \<Rightarrow> columnMapping" where
  "createFallbackMapping fileHeaders =
     foldl (\<lambda>m (schemaField, patterns).
              let bestMatch = fst (bestHeader patterns fileHeaders) in
              if truthy bestMatch then m(schemaField := bestMatch) else m)
       (foldl (\<lambda>m f. m(f := None)) Map.empty (keys schemaDefinition))
       FIELD_PATTERNS"

subsection \<open>\<open>getSuggestedMapping\<close>\<close>

text \<open>
  The keys of the object \<open>createFallbackMapping\<close> returns: the schema's fields, then the
  fields of \<open>FIELD_PATTERNS\<close> that are not among them (there is none).
\<close>

definition fallbackKeys :: "string list" where
  "fallbackKeys =
     keys schemaDefinition @ filter (\<lambda>f. f \<notin> set (keys schemaDefinition)) (keys FIELD_PATTERNS)"

text \<open>The merge: \<open>if (!aiMapping[field] && fallbackMapping[field]) aiMapping[field] = fallbackMapping[field]\<close>.\<close>

definition mergeFallback :: "columnMapping \<Rightarrow> columnMapping \<Rightarrow> columnMapping" where
  "mergeFallback aiMapping fallbackMapping =
     foldl (\<lambda>ai f. if \<not> truthy (ai f) \<and> truthy (fallbackMapping f)
                    then ai(f := fallbackMapping f) else ai)
       aiMapping fallbackKeys"

text \<open>
  The collaborator is outside the repository: its answer, after the clean-up and
  \<open>JSON.parse\<close>, is the argument \<open>parsed\<close>, and \<open>None\<close> stands for a failed call or a text that
  does not parse (the \<open>catch\<close> branch).
\<close>

definition getSuggestedMapping :: "columnMapping option \<Rightarrow> string list \<Rightarrow> columnMapping" where
  "getSuggestedMapping parsed fileHeaders =
     (case parsed of
        None \<Rightarrow> createFallbackMapping fileHeaders
      | Some aiMapping \<Rightarrow>
          (let requiredFields = schemaRequiredFields;
               mappedRequiredFields = filter (isMapped aiMapping) requiredFields
           in if (of_nat (length mappedRequiredFields) :: rat) < of_nat (length requiredFields) * (6 / 10)
              then mergeFallback aiMapping (createFallbackMapping fileHeaders)
              else aiMapping))"

section \<open>Reference definitions from the specification\<close>

text \<open>
  The score of one alias as the specification words it: 1 on equality of the normalised
  strings, 0.8 on containment in either direction, the similarity when it exceeds 0.7,
  and 0 otherwise; and the highest such score over a list of aliases.
\<close>

definition spec_aliasScore :: "string \<Rightarrow> string \<Rightarrow> rat" where
  "spec_aliasScore header alias =
     (let a = normalize header; b = normalize alias in
      if a = b then 1
      else if str_includes a b \<or> str_includes b a then 8 / 10
      else if calculateSimilarity a b > 7 / 10 then calculateSimilarity a b
      else 0)"

definition spec_highestScore :: "string \<Rightarrow> string list \<Rightarrow> rat" where
  "spec_highestScore header aliases = foldr (\<lambda>alias best. max (spec_aliasScore header alias) best) aliases 0"

text \<open>
  Decoding one field of a delimited line the standard way: a field that opens with a
  quote ends at the closing quote, and a doubled quote inside stands for one quote; any
  other field is taken as it is.
\<close>

fun spec_unquote :: "string \<Rightarrow> string option" where
  "spec_unquote [] = None"
| "spec_unquote [c] = (if c = dquote then Some [] else None)"
| "spec_unquote (c # d # ds) =
     (if c = dquote
      then (if d = dquote then map_option ((#) dquote) (spec_unquote ds) else None)
      else map_option ((#) c) (spec_unquote (d # ds)))"

definition spec_csvDecodeField :: "string \<Rightarrow> string option" where
  "spec_csvDecodeField s =
     (case s of
        [] \<Rightarrow> Some []
      | c # cs \<Rightarrow> if c = dquote then spec_unquote cs else Some s)"


section \<open>Sample inputs\<close>

text \<open>
  A host that parses and prints two instants (every other text is not a date for it, and
  its \<open>toISOString\<close> is only meant at those two), a confirmed mapping and three rows of a
  file: one that is accepted, one with an empty destination address and one whose end
  time is not a date. The theorems below are instantiated at them.
\<close>

definition sample_host :: host where
  "sample_host =
     \<lparr>Date_parse = (\<lambda>s. if s = ''2024-01-01T00:00:00Z'' then Num 1704067200000
                         else if s = ''2024-01-01T00:00:10Z'' then Num 1704067210000
                         else NaN),
      Date_now = (\<lambda>k. 1704070000000 + int k),
      Math_random_suffix = (\<lambda>k. ''k3j9x0q2a''),
      toISOString = (\<lambda>t. if t = 1704067200000 then ''2024-01-01T00:00:00.000Z''
                          else if t = 1704067210000 then ''2024-01-01T00:00:10.000Z''
                          else ''1970-01-01T00:00:00.000Z'')\<rparr>"

definition sample_mapping :: columnMapping where
  "sample_mapping =
     [''a_party_id'' \<mapsto> ''msisdn'', ''src_ip'' \<mapsto> ''source_ip'', ''dst_ip'' \<mapsto> ''dest_ip'',
      ''dst_port'' \<mapsto> ''dest_port'', ''start_time'' \<mapsto> ''start'', ''end_time'' \<mapsto> ''end'',
      ''duration_ms'' \<mapsto> ''duration'']"

definition sample_row :: rawRecord where
  "sample_row =
     [''msisdn'' \<mapsto> ''919876543210'', ''source_ip'' \<mapsto> ''10.0.0.1'',
      ''dest_ip'' \<mapsto> ''93.184.216.34'', ''dest_port'' \<mapsto> ''443'',
      ''start'' \<mapsto> ''2024-01-01T00:00:00Z'', ''end'' \<mapsto> '''', ''duration'' \<mapsto> ''500'']"

definition sample_row_missing_dst_ip :: rawRecord where
  "sample_row_missing_dst_ip = sample_row(''dest_ip'' \<mapsto> '''')"

definition sample_row_bad_end_time :: rawRecord where
  "sample_row_bad_end_time = sample_row(''end'' \<mapsto> ''n/a'')"

text \<open>Two more accepted rows without a duration: one with an end time and one without.\<close>

definition sample_row_end_time :: rawRecord where
  "sample_row_end_time = sample_row(''duration'' \<mapsto> '''', ''end'' \<mapsto> ''2024-01-01T00:00:10Z'')"

definition sample_row_no_duration :: rawRecord where
  "sample_row_no_duration = sample_row(''duration'' \<mapsto> '''')"

text \<open>An answer of the collaborator that maps two required fields, and the headers of a file.\<close>

definition sample_aiMapping :: columnMapping where
  "sample_aiMapping = [''a_party_id'' \<mapsto> ''user_id'', ''start_time'' \<mapsto> ''Start Time'']"

definition sample_headers :: "string list" where
  "sample_headers = [''MSISDN'', ''user_id'', ''Start Time'', ''dest_ip'', ''dest_port'']"

section \<open>Properties of the mapping validator\<close>

lemma foldl_push:
  "foldl (\<lambda>acc x. if P x then acc @ [g x] else acc) a xs = a @ map g (filter P xs)"
  by (induction xs arbitrary: a) simp_all

lemma isMapped_iff: "isMapped m f \<longleftrightarrow> (\<exists>header. m f = Some header \<and> header \<noteq> [])"
  by (cases "m f") (simp_all add: isMapped_def truthy_def)

lemma keys_REQUIRED_FIELDS:
  "keys REQUIRED_FIELDS = [''a_party_id'', ''src_ip'', ''dst_ip'', ''dst_port'', ''start_time'']"
  by (simp add: keys_def REQUIRED_FIELDS_def)

lemma schemaRequiredFields_eq:
  "schemaRequiredFields = [''a_party_id'', ''start_time'', ''dst_ip'', ''dst_port'']"
  by (simp add: schemaRequiredFields_def schemaDefinition_def)

lemma requiredErrors_eq:
  "requiredErrors m =
     map (\<lambda>p. \<lparr>field = fst p, message = snd p, severity = ''error''\<rparr>)
         (filter (\<lambda>p. \<not> isMapped m (fst p)) REQUIRED_FIELDS)"
  unfolding requiredErrors_def case_prod_unfold
  using foldl_push [of "\<lambda>p. \<not> isMapped m (fst p)"
      "\<lambda>p. \<lparr>field = fst p, message = snd p, severity = ''error''\<rparr>" "[]" REQUIRED_FIELDS]
  by simp

lemma requiredErrors_field:
  "map field (requiredErrors m) = filter (\<lambda>f. \<not> isMapped m f) (keys REQUIRED_FIELDS)"
  by (simp add: requiredErrors_eq keys_def filter_map comp_def)

lemma requiredErrors_Nil_iff:
  "requiredErrors m = [] \<longleftrightarrow> (\<forall>f \<in> set (keys REQUIRED_FIELDS). isMapped m f)"
proof -
  have "requiredErrors m = [] \<longleftrightarrow> map field (requiredErrors m) = []" by simp
  also have "\<dots> \<longleftrightarrow> (\<forall>f \<in> set (keys REQUIRED_FIELDS). isMapped m f)"
    unfolding requiredErrors_field by (simp add: filter_empty_conv)
  finally show ?thesis .
qed

text \<open>
  Claim C1, as amended. The report of \<open>validateRequiredFields\<close> is invalid iff one of the
  five fields of the validator's own table \<open>REQUIRED_FIELDS\<close> (subscriber id, source ip,
  destination ip, destination port, start time) is unmapped, where unmapped means that
  the entry is missing, null or the empty string; the errors name exactly the unmapped
  fields of that table, one entry each, in the table's order. The table is not the
  required subset of the schema catalogue: the catalogue marks \<open>src_ip\<close> as optional, so
  its required fields are the other four.
\<close>

theorem validateRequiredFields_own_table:
  "(isValid (validateRequiredFields m fileHeaders) = False
      \<longleftrightarrow> (\<exists>f \<in> set (keys REQUIRED_FIELDS). \<not> isMapped m f))
   \<and> map field (errors (validateRequiredFields m fileHeaders))
       = filter (\<lambda>f. \<not> isMapped m f) (keys REQUIRED_FIELDS)
   \<and> keys REQUIRED_FIELDS = [''a_party_id'', ''src_ip'', ''dst_ip'', ''dst_port'', ''start_time'']
   \<and> schemaRequiredFields = [''a_party_id'', ''start_time'', ''dst_ip'', ''dst_port'']
   \<and> (isMapped m f \<longleftrightarrow> (\<exists>header. m f = Some header \<and> header \<noteq> []))"
proof -
  have a: "isValid (validateRequiredFields m fileHeaders) = False
      \<longleftrightarrow> (\<exists>f \<in> set (keys REQUIRED_FIELDS). \<not> isMapped m f)"
    using requiredErrors_Nil_iff [of m] by (simp add: validateRequiredFields_def Let_def)
  have b: "map field (errors (validateRequiredFields m fileHeaders))
       = filter (\<lambda>f. \<not> isMapped m f) (keys REQUIRED_FIELDS)"
    by (simp add: validateRequiredFields_def Let_def requiredErrors_field)
  show ?thesis
    using a b keys_REQUIRED_FIELDS schemaRequiredFields_eq isMapped_iff [of m f] by blast
qed

text \<open>
  The theorem of C1 at a mapping that covers the four required fields of the schema
  catalogue and leaves \<open>src_ip\<close> out: the report is invalid, with the one error \<open>src_ip\<close>.
\<close>

theorem validateRequiredFields_own_table_witness:
  "isValid (validateRequiredFields
      [''a_party_id'' \<mapsto> ''msisdn'', ''start_time'' \<mapsto> ''ts'', ''dst_ip'' \<mapsto> ''dip'',
       ''dst_port'' \<mapsto> ''dport''] []) = False
   \<and> map field (errors (validateRequiredFields
      [''a_party_id'' \<mapsto> ''msisdn'', ''start_time'' \<mapsto> ''ts'', ''dst_ip'' \<mapsto> ''dip'',
       ''dst_port'' \<mapsto> ''dport''] [])) = [''src_ip'']"
  using validateRequiredFields_own_table
    [of "[''a_party_id'' \<mapsto> ''msisdn'', ''start_time'' \<mapsto> ''ts'', ''dst_ip'' \<mapsto> ''dip'',
       ''dst_port'' \<mapsto> ''dport'']" "[]" "''src_ip''"]
  by (simp add: isMapped_def truthy_def)

text \<open>
  Claim C1 as stated fails: with the required fields read off the schema catalogue, the
  same mapping has no required field unmapped, and yet its report is invalid.
\<close>

theorem validateRequiredFields_schema_counterexample:
  "\<not> (isValid (validateRequiredFields
          [''a_party_id'' \<mapsto> ''msisdn'', ''start_time'' \<mapsto> ''ts'', ''dst_ip'' \<mapsto> ''dip'',
           ''dst_port'' \<mapsto> ''dport''] []) = False
       \<longleftrightarrow> (\<exists>f \<in> set schemaRequiredFields.
              \<not> isMapped [''a_party_id'' \<mapsto> ''msisdn'', ''start_time'' \<mapsto> ''ts'',
                           ''dst_ip'' \<mapsto> ''dip'', ''dst_port'' \<mapsto> ''dport''] f))"
  by (simp add: validateRequiredFields_def Let_def requiredErrors_def REQUIRED_FIELDS_def
      schemaRequiredFields_eq isMapped_def truthy_def)

section \<open>Properties of the record transformer\<close>

subsection \<open>Data-level validation\<close>

lemma missingRequired_eq:
  "missingRequired mv =
     map (\<lambda>p. ''Missing required field: '' @ fst p @ '' ('' @ snd p @ '')'')
         (filter (\<lambda>p. \<not> truthy (mv (fst p)) \<or> mv (fst p) = Some '''' \<or> mv (fst p) = Some ''null''
                       \<or> mv (fst p) = Some ''NULL'') REQUIRED_FIELDS)"
  unfolding missingRequired_def case_prod_unfold Let_def
  using foldl_push [of "\<lambda>p. \<not> truthy (mv (fst p)) \<or> mv (fst p) = Some '''' \<or> mv (fst p) = Some ''null''
                       \<or> mv (fst p) = Some ''NULL''"
      "\<lambda>p. ''Missing required field: '' @ fst p @ '' ('' @ snd p @ '')''" "[]" REQUIRED_FIELDS]
  by simp

lemma missingRequired_Nil_iff:
  "missingRequired mv = [] \<longleftrightarrow>
     (\<forall>f \<in> set (keys REQUIRED_FIELDS).
        truthy (mv f) \<and> mv f \<noteq> Some ''null'' \<and> mv f \<noteq> Some ''NULL'')"
  unfolding missingRequired_eq by (auto simp: filter_empty_conv keys_def truthy_def)

lemma recIsValid_iff:
  "recIsValid (validateRecord h mv raw) \<longleftrightarrow>
     missingRequired mv = []
     \<and> \<not> (truthy (mv ''start_time'') \<and> isNaN (Date_parse h (the (mv ''start_time''))))
     \<and> \<not> (truthy (mv ''dst_port'')
           \<and> (isNaN (parseInt (the (mv ''dst_port'')) None)
               \<or> jsLess (parseInt (the (mv ''dst_port'')) None) (Num 1)))
     \<and> \<not> (truthy (mv ''src_ip'') \<and> \<not> isValidIP (the (mv ''src_ip'')))
     \<and> \<not> (truthy (mv ''dst_ip'') \<and> \<not> isValidIP (the (mv ''dst_ip'')))"
  by (simp add: validateRecord_def Let_def)

text \<open>
  A row fails \<open>_validateRecord\<close> exactly for the reasons the specification lists: a
  required field missing, empty, \<open>"null"\<close> or \<open>"NULL"\<close>; a start time that does not parse;
  a destination port that \<open>parseInt\<close> does not read as a number of at least 1; a source
  or destination address that \<open>_isValidIP\<close> refuses.
\<close>

lemma validateRecord_invalid_iff:
  "\<not> recIsValid (validateRecord h mv raw) \<longleftrightarrow>
     (\<exists>f \<in> set (keys REQUIRED_FIELDS).
         mv f = None \<or> mv f = Some '''' \<or> mv f = Some ''null'' \<or> mv f = Some ''NULL'')
     \<or> (truthy (mv ''start_time'') \<and> Date_parse h (the (mv ''start_time'')) = NaN)
     \<or> (truthy (mv ''dst_port'')
         \<and> \<not> (\<exists>n. parseInt (the (mv ''dst_port'')) None = Num n \<and> 1 \<le> n))
     \<or> (truthy (mv ''src_ip'') \<and> \<not> isValidIP (the (mv ''src_ip'')))
     \<or> (truthy (mv ''dst_ip'') \<and> \<not> isValidIP (the (mv ''dst_ip'')))"
proof -
  have a: "isNaN x \<longleftrightarrow> x = NaN" for x by (cases x) (simp_all add: isNaN_def)
  have b: "(x = NaN \<or> jsLess x (Num 1)) \<longleftrightarrow> \<not> (\<exists>n. x = Num n \<and> 1 \<le> n)" for x
    by (cases x) (auto simp: jsLess_def)
  have c: "(truthy v \<and> v \<noteq> Some ''null'' \<and> v \<noteq> Some ''NULL'')
      \<longleftrightarrow> \<not> (v = None \<or> v = Some '''' \<or> v = Some ''null'' \<or> v = Some ''NULL'')" for v
    by (cases v) (auto simp: truthy_def)
  have d: "missingRequired mv = [] \<longleftrightarrow>
     \<not> (\<exists>f \<in> set (keys REQUIRED_FIELDS).
         mv f = None \<or> mv f = Some '''' \<or> mv f = Some ''null'' \<or> mv f = Some ''NULL'')"
    unfolding missingRequired_Nil_iff c by blast
  show ?thesis
    unfolding recIsValid_iff d a b by blast
qed

lemma valid_required:
  assumes "recIsValid (validateRecord h mv raw)" and "f \<in> set (keys REQUIRED_FIELDS)"
  shows "\<exists>v. mv f = Some v \<and> v \<noteq> [] \<and> v \<noteq> ''null'' \<and> v \<noteq> ''NULL''"
proof -
  from assms have "truthy (mv f) \<and> mv f \<noteq> Some ''null'' \<and> mv f \<noteq> Some ''NULL''"
    by (simp add: recIsValid_iff missingRequired_Nil_iff)
  then show ?thesis by (cases "mv f") (simp_all add: truthy_def)
qed

lemma valid_start_time:
  assumes "recIsValid (validateRecord h mv raw)"
  shows "\<exists>s t. mv ''start_time'' = Some s \<and> s \<noteq> [] \<and> Date_parse h s = Num t"
proof -
  from valid_required [OF assms, of "''start_time''"]
  obtain s where s: "mv ''start_time'' = Some s" "s \<noteq> []"
    by (auto simp: keys_REQUIRED_FIELDS)
  with assms have "\<not> isNaN (Date_parse h s)"
    by (simp add: recIsValid_iff truthy_def)
  then obtain t where "Date_parse h s = Num t"
    by (cases "Date_parse h s") (simp_all add: isNaN_def)
  with s show ?thesis by blast
qed

lemma validateRecord_ignores_end_time:
  "validateRecord h (mv(''end_time'' := x)) raw = validateRecord h mv raw"
proof -
  have "missingRequired (mv(''end_time'' := x)) = missingRequired mv"
    by (simp add: missingRequired_def REQUIRED_FIELDS_def)
  then show ?thesis by (simp add: validateRecord_def)
qed

subsection \<open>One call of \<open>_transform\<close>\<close>

lemma transform_invalid:
  assumes "\<not> recIsValid (validateRecord h (extractMappedValues (mapping st) raw) raw)"
  shows "transform h st raw =
     (st\<lparr>errorCount := errorCount st + 1,
         validationErrors := validationErrors st @
           [\<lparr>diagRecord = recordCount st + 1,
             diagErrors = recErrors (validateRecord h (extractMappedValues (mapping st) raw) raw),
             diagRawRecord = raw\<rparr>]\<rparr>, None)"
  using assms unfolding transform_def Let_def by (simp only: if_True not_not simp_thms)

lemma transform_Some:
  assumes "snd (transform h st raw) = Some line"
  shows "recordToCsv h (processRecord h (recordCount st + errorCount st)
           (extractMappedValues (mapping st) raw) raw) = Inr line"
  using assms unfolding transform_def Let_def
  by (auto split: if_splits sum.splits)

lemma collect_Inr_length: "collect xs = Inr fs \<Longrightarrow> length fs = length xs"
  by (induction xs arbitrary: fs rule: collect.induct) (auto split: sum.splits)

lemma collect_Inr_head: "collect (Inr s # rest) = Inr fs \<Longrightarrow> \<exists>fs'. fs = s # fs' \<and> collect rest = Inr fs'"
  by (auto split: sum.splits)

lemma startsWith_append: "startsWith (p @ t) p"
  by (induction p) simp_all

lemma join_head: "fs \<noteq> [] \<Longrightarrow> join sep (s # fs) = s @ sep @ join sep fs"
  by (cases fs) simp_all

lemma toCsv_JStr: "toCsv h (JStr s) = Inr (csvEscape s)"
  by (simp add: toCsv_def)

lemma recordToCsv_head:
  assumes "recordToCsv h r = Inr line"
  shows "startsWith line (csvEscape (a_party_id r) @ '','')"
proof -
  from assms obtain fs where fs: "collect
        [toCsv h (JStr (a_party_id r)),
         toCsv h (JDate (start_time r)),
         toCsv h (optDate (end_time r)),
         toCsv h (optNum (duration_ms r)),
         toCsv h (optStr (nat_ip r)),
         toCsv h (optNum (nat_port r)),
         toCsv h (optStr (src_ip r)),
         toCsv h (optNum (src_port r)),
         toCsv h (optStr (dst_ip r)),
         toCsv h (optNum (dst_port r)),
         toCsv h (JStr (protocol r)),
         toCsv h (JStr (service_label r)),
         toCsv h (JNum (bytes_up r)),
         toCsv h (JNum (bytes_down r))] = Inr fs"
    and line: "line = join '','' fs @ [newline]"
    unfolding recordToCsv_def by (auto split: sum.splits)
  from collect_Inr_length [OF fs] have len: "length fs = 14" by simp
  from fs obtain fs' where fs': "fs = csvEscape (a_party_id r) # fs'"
    unfolding toCsv_JStr using collect_Inr_head by blast
  with len have "fs' \<noteq> []" by auto
  then have "join '','' fs = csvEscape (a_party_id r) @ '','' @ join '','' fs'"
    unfolding fs' by (rule join_head)
  then have "line = (csvEscape (a_party_id r) @ '','') @ (join '','' fs' @ [newline])"
    using line by simp
  then show ?thesis using startsWith_append by metis
qed

lemma recordToCsv_invalid_end:
  assumes "start_time r = Num t" and "end_time r = Some NaN"
  shows "recordToCsv h r = Inl RangeError"
  using assms by (simp add: recordToCsv_def toCsv_def optDate_def)

lemma extract_a_party_id:
  assumes "extractMappedValues m raw ''a_party_id'' = Some v"
  shows "\<exists>header. m ''a_party_id'' = Some header \<and> header \<noteq> [] \<and> raw header = Some v"
  using assms
  by (cases "m ''a_party_id''")
     (auto simp: extractMappedValues_def extractedFields_def truthy_def split: if_splits)

lemma processRecord_a_party_id:
  "mv ''a_party_id'' = Some v \<Longrightarrow> v \<noteq> [] \<Longrightarrow> a_party_id (processRecord h k mv raw) = v"
  by (simp add: processRecord_def Let_def truthy_def)

subsection \<open>Evaluation at the sample inputs\<close>

lemma showNat_small: "n < 10 \<Longrightarrow> showNat n = [digitChar n]"
  by (simp add: showNat.simps)

lemma showNat_big: "10 \<le> n \<Longrightarrow> showNat n = showNat (n div 10) @ [digitChar (n mod 10)]"
  by (subst showNat.simps) simp

lemmas show_eval = showNat_small showNat_big showInt_def digitChar_def numberToString_def

lemmas parse_eval = parseInt_def Let_def isWhiteSpace_def hasDigit_def digitVal_def

lemma sample_mv:
  "extractMappedValues sample_mapping sample_row =
     (\<lambda>f. if f = ''a_party_id'' then Some ''919876543210''
          else if f = ''start_time'' then Some ''2024-01-01T00:00:00Z''
          else if f = ''end_time'' then Some ''''
          else if f = ''duration_ms'' then Some ''500''
          else if f = ''src_ip'' then Some ''10.0.0.1''
          else if f = ''dst_ip'' then Some ''93.184.216.34''
          else if f = ''dst_port'' then Some ''443''
          else None)"
  by (rule ext) (simp add: extractMappedValues_def extractedFields_def sample_mapping_def
      sample_row_def truthy_def)

lemma sample_record:
  "processRecord sample_host k (extractMappedValues sample_mapping sample_row) sample_row =
     \<lparr>a_party_id = ''919876543210'', start_time = Num 1704067200000, end_time = None,
      duration_ms = Some (Num 500000), src_ip = Some ''10.0.0.1'', src_port = None,
      nat_ip = None, nat_port = None, dst_ip = Some ''93.184.216.34'', dst_port = Some (Num 443),
      protocol = ''TCP'', service_label = ''HTTPS/WEB'', bytes_up = Num 0, bytes_down = Num 0\<rparr>"
  unfolding sample_mv
  by (simp add: processRecord_def truthy_def sample_host_def parse_eval jsLess_def jsTimes_def
      toUpperCase_def lowerLetters_def upperLetters_def getServiceLabel_def show_eval portMap_def)

lemma sample_line:
  "recordToCsv sample_host (processRecord sample_host k
      (extractMappedValues sample_mapping sample_row) sample_row)
   = Inr (''919876543210,2024-01-01T00:00:00.000Z,,500000,,,10.0.0.1,,93.184.216.34,443,TCP,HTTPS/WEB,0,0'' @ [newline])"
  unfolding sample_record
  by (simp add: recordToCsv_def toCsv_def optDate_def optNum_def optStr_def csvEscape_def
      isNaN_def show_eval sample_host_def dquote_def newline_def)

lemma sample_missing_dst_ip:
  "extractMappedValues sample_mapping sample_row_missing_dst_ip ''dst_ip'' = Some ''''"
  by (simp add: extractMappedValues_def extractedFields_def sample_mapping_def
      sample_row_missing_dst_ip_def sample_row_def truthy_def)

lemma sample_valid:
  "recIsValid (validateRecord sample_host (extractMappedValues sample_mapping sample_row) sample_row)"
  by code_simp

lemma sample_bad_end_valid:
  "recIsValid (validateRecord sample_host
        (extractMappedValues sample_mapping sample_row_bad_end_time) sample_row_bad_end_time)"
  by code_simp

subsection \<open>Rejected rows\<close>

text \<open>
  Claim C2. A row that fails data-level validation (a required field missing, empty,
  \<open>"null"\<close> or \<open>"NULL"\<close>; a start time that does not parse as a date; a destination port
  that is present and not a positive integer; a source or destination address that is
  present and malformed) yields no output line, raises \<open>errorCount\<close> by exactly 1 and
  leaves \<open>recordCount\<close> as it was; the call returns normally, and the run goes on with the
  next row from the state it leaves. A positive integer is what \<open>parseInt\<close> reads as a
  number of at least 1, and a malformed address is one that \<open>_isValidIP\<close> refuses; by
  \<open>validateRecord_invalid_iff\<close> the hypothesis is exactly the failure of \<open>_validateRecord\<close>.
\<close>

theorem transform_rejects_invalid_row:
  assumes "mv = extractMappedValues (mapping st) raw"
      and "(\<exists>f \<in> set (keys REQUIRED_FIELDS).
               mv f = None \<or> mv f = Some '''' \<or> mv f = Some ''null'' \<or> mv f = Some ''NULL'')
           \<or> (truthy (mv ''start_time'') \<and> Date_parse h (the (mv ''start_time'')) = NaN)
           \<or> (truthy (mv ''dst_port'')
               \<and> \<not> (\<exists>n. parseInt (the (mv ''dst_port'')) None = Num n \<and> 1 \<le> n))
           \<or> (truthy (mv ''src_ip'') \<and> \<not> isValidIP (the (mv ''src_ip'')))
           \<or> (truthy (mv ''dst_ip'') \<and> \<not> isValidIP (the (mv ''dst_ip'')))"
  shows "snd (transform h st raw) = None
     \<and> errorCount (fst (transform h st raw)) = errorCount st + 1
     \<and> recordCount (fst (transform h st raw)) = recordCount st
     \<and> runRows h st (raw # rest) = runRows h (fst (transform h st raw)) rest"
proof -
  from assms have "\<not> recIsValid (validateRecord h (extractMappedValues (mapping st) raw) raw)"
    using validateRecord_invalid_iff [of h mv raw] by simp
  then show ?thesis
    by (simp add: transform_invalid split: prod.splits)
qed

text \<open>The theorem of C2 at the sample row whose destination address is empty.\<close>

theorem transform_rejects_invalid_row_witness:
  "extractMappedValues sample_mapping sample_row_missing_dst_ip ''dst_ip'' = Some ''''
   \<and> snd (transform sample_host (newProcessor sample_mapping) sample_row_missing_dst_ip) = None
   \<and> errorCount (fst (transform sample_host (newProcessor sample_mapping) sample_row_missing_dst_ip)) = 1
   \<and> recordCount (fst (transform sample_host (newProcessor sample_mapping) sample_row_missing_dst_ip)) = 0"
proof -
  have m: "mapping (newProcessor sample_mapping) = sample_mapping"
    by (simp add: newProcessor_def)
  have "\<exists>f \<in> set (keys REQUIRED_FIELDS).
          extractMappedValues sample_mapping sample_row_missing_dst_ip f = Some ''''"
    using sample_missing_dst_ip by (simp add: keys_REQUIRED_FIELDS)
  then have "\<exists>f \<in> set (keys REQUIRED_FIELDS).
          extractMappedValues sample_mapping sample_row_missing_dst_ip f = None
          \<or> extractMappedValues sample_mapping sample_row_missing_dst_ip f = Some ''''
          \<or> extractMappedValues sample_mapping sample_row_missing_dst_ip f = Some ''null''
          \<or> extractMappedValues sample_mapping sample_row_missing_dst_ip f = Some ''NULL''"
    by blast
  then show ?thesis
    using transform_rejects_invalid_row
      [of "extractMappedValues sample_mapping sample_row_missing_dst_ip"
          "newProcessor sample_mapping" sample_row_missing_dst_ip sample_host "[]"]
      sample_missing_dst_ip
    unfolding m by (simp add: newProcessor_def)
qed

subsection \<open>The subscriber identifier of an accepted row\<close>

text \<open>
  Claim C9. For a row that passes data-level validation, the \<open>a_party_id\<close> of the record
  built by \<open>_processRecord\<close> is the raw value read from the row under the mapped header:
  validation has required it to be non-empty, so the synthesised identifier of
  \<open>generateSessionIdentifier\<close> (source address, epoch milliseconds, random suffix) is never
  taken, whatever the clock and the random source return, and every line emitted for
  the row starts with the encoding of that raw value.
\<close>

theorem accepted_row_keeps_a_party_id:
  assumes "mv = extractMappedValues (mapping st) raw"
      and "recIsValid (validateRecord h mv raw)"
  shows "\<exists>header v. mapping st ''a_party_id'' = Some header \<and> raw header = Some v \<and> v \<noteq> []
           \<and> a_party_id (processRecord h k mv raw) = v
           \<and> (\<forall>line. snd (transform h st raw) = Some line
                  \<longrightarrow> startsWith line (csvEscape v @ '',''))"
proof -
  from valid_required [OF assms(2), of "''a_party_id''"]
  obtain v where v: "mv ''a_party_id'' = Some v" "v \<noteq> []"
    by (auto simp: keys_REQUIRED_FIELDS)
  from v(1) assms(1) obtain header where hd: "mapping st ''a_party_id'' = Some header" "raw header = Some v"
    using extract_a_party_id by metis
  have ap: "a_party_id (processRecord h k mv raw) = v" for k
    using v by (rule processRecord_a_party_id)
  have "startsWith line (csvEscape v @ '','')" if "snd (transform h st raw) = Some line" for line
    using recordToCsv_head [OF transform_Some [OF that]] ap assms(1) by simp
  with hd v ap show ?thesis by blast
qed

text \<open>The theorem of C9 at the accepted sample row.\<close>

theorem accepted_row_keeps_a_party_id_witness:
  "recIsValid (validateRecord sample_host (extractMappedValues sample_mapping sample_row) sample_row)
   \<and> a_party_id (processRecord sample_host 0 (extractMappedValues sample_mapping sample_row) sample_row)
       = ''919876543210''
   \<and> sample_row (the (sample_mapping ''a_party_id'')) = Some ''919876543210''"
proof -
  have m: "mapping (newProcessor sample_mapping) = sample_mapping"
    by (simp add: newProcessor_def)
  from accepted_row_keeps_a_party_id
      [of "extractMappedValues sample_mapping sample_row" "newProcessor sample_mapping"
          sample_row sample_host 0]
    sample_valid
  obtain header v where "sample_mapping ''a_party_id'' = Some header" "sample_row header = Some v"
    "a_party_id (processRecord sample_host 0 (extractMappedValues sample_mapping sample_row) sample_row) = v"
    unfolding m by blast
  then show ?thesis
    using sample_valid by (auto simp: sample_mapping_def sample_row_def)
qed

subsection \<open>An end time that is not a date\<close>

text \<open>
  Claim C10. Data-level validation never looks at \<open>end_time\<close>. A row that passes it and
  whose mapped end time is present but does not parse as a date is still not emitted:
  encoding the invalid Date throws, the exception is caught inside \<open>_transform\<close>,
  \<open>errorCount\<close> goes up by 1, \<open>recordCount\<close> stays, and nothing is appended to
  \<open>validationErrors\<close>.
\<close>

theorem invalid_end_time_dropped_without_diagnostic:
  assumes "mv = extractMappedValues (mapping st) raw"
      and "recIsValid (validateRecord h mv raw)"
      and "mv ''end_time'' = Some e" and "e \<noteq> []" and "Date_parse h e = NaN"
  shows "transform h st raw = (st\<lparr>errorCount := errorCount st + 1\<rparr>, None)
     \<and> validationErrors (fst (transform h st raw)) = validationErrors st
     \<and> recordCount (fst (transform h st raw)) = recordCount st
     \<and> validateRecord h (mv(''end_time'' := x)) raw = validateRecord h mv raw"
proof -
  from valid_start_time [OF assms(2)]
  obtain s t where s: "mv ''start_time'' = Some s" "s \<noteq> []" "Date_parse h s = Num t" by blast
  let ?r = "processRecord h (recordCount st + errorCount st) mv raw"
  have "start_time ?r = Num t" using s by (simp add: processRecord_def Let_def truthy_def)
  moreover have "end_time ?r = Some NaN"
    using assms(3-5) by (simp add: processRecord_def Let_def truthy_def)
  ultimately have "recordToCsv h ?r = Inl RangeError" by (rule recordToCsv_invalid_end)
  then have "transform h st raw = (st\<lparr>errorCount := errorCount st + 1\<rparr>, None)"
    using assms(1,2) by (simp add: transform_def Let_def)
  then show ?thesis by (simp add: validateRecord_ignores_end_time)
qed

text \<open>The theorem of C10 at the sample row whose end time is \<open>n/a\<close>.\<close>

theorem invalid_end_time_dropped_without_diagnostic_witness:
  "recIsValid (validateRecord sample_host
        (extractMappedValues sample_mapping sample_row_bad_end_time) sample_row_bad_end_time)
   \<and> extractMappedValues sample_mapping sample_row_bad_end_time ''end_time'' = Some ''n/a''
   \<and> Date_parse sample_host ''n/a'' = NaN
   \<and> transform sample_host (newProcessor sample_mapping) sample_row_bad_end_time
       = (\<lparr>mapping = sample_mapping, recordCount = 0, errorCount = 1, validationErrors = []\<rparr>, None)"
proof -
  have m: "mapping (newProcessor sample_mapping) = sample_mapping"
    by (simp add: newProcessor_def)
  have e: "extractMappedValues sample_mapping sample_row_bad_end_time ''end_time'' = Some ''n/a''"
    by (simp add: extractMappedValues_def extractedFields_def sample_mapping_def
      sample_row_bad_end_time_def sample_row_def truthy_def)
  have p: "Date_parse sample_host ''n/a'' = NaN"
    by (simp add: sample_host_def)
  from invalid_end_time_dropped_without_diagnostic
      [of "extractMappedValues sample_mapping sample_row_bad_end_time" "newProcessor sample_mapping"
          sample_row_bad_end_time sample_host "''n/a''"]
    sample_bad_end_valid e p
  show ?thesis unfolding m by (simp add: newProcessor_def)
qed

subsection \<open>Duration\<close>

lemma sample_end_time_valid:
  "recIsValid (validateRecord sample_host
        (extractMappedValues sample_mapping sample_row_end_time) sample_row_end_time)"
  by code_simp

lemma sample_no_duration_valid:
  "recIsValid (validateRecord sample_host
        (extractMappedValues sample_mapping sample_row_no_duration) sample_row_no_duration)"
  by code_simp

lemma sample_end_time_mv:
  "extractMappedValues sample_mapping sample_row_end_time ''duration_ms'' = Some ''''
   \<and> extractMappedValues sample_mapping sample_row_end_time ''start_time'' = Some ''2024-01-01T00:00:00Z''
   \<and> extractMappedValues sample_mapping sample_row_end_time ''end_time'' = Some ''2024-01-01T00:00:10Z''"
  by (simp add: extractMappedValues_def extractedFields_def sample_mapping_def
      sample_row_end_time_def sample_row_def truthy_def)

lemma sample_no_duration_mv:
  "extractMappedValues sample_mapping sample_row_no_duration ''duration_ms'' = Some ''''
   \<and> extractMappedValues sample_mapping sample_row_no_duration ''end_time'' = Some ''''"
  by (simp add: extractMappedValues_def extractedFields_def sample_mapping_def
      sample_row_no_duration_def sample_row_def truthy_def)

lemma parseInt_500: "parseInt ''500'' (Some 10) = Num 500"
  by (simp add: parse_eval)

lemma parseInt_2000000: "parseInt ''2000000'' (Some 10) = Num 2000000"
  by (simp add: parse_eval)

text \<open>
  Claim C6. For an accepted row with an explicit duration value, \<open>duration_ms\<close> is the
  value parsed as an integer, multiplied by 1000 when it is below 1,000,000 and unchanged
  otherwise (a value that does not parse stays \<open>NaN\<close>); the raw value 500 gives 500000
  and 2000000 gives 2000000. Without an explicit duration, \<open>duration_ms\<close> is end minus
  start in milliseconds when an end time is present (the start time of an accepted row
  always is), and null otherwise. The parsed value is taken between \<open>-9007199254740\<close>
  and \<open>2^53\<close>, and the difference of the two time values up to \<open>2^53\<close> in absolute
  value: there the source's double arithmetic is exact.
\<close>

theorem duration_ms_inference:
  assumes "recIsValid (validateRecord h mv raw)"
  shows "(\<forall>d n. mv ''duration_ms'' = Some d \<and> d \<noteq> [] \<and> parseInt d (Some 10) = Num n
              \<and> - 9007199254740 \<le> n \<and> n \<le> 9007199254740992 \<longrightarrow>
            duration_ms (processRecord h k mv raw)
              = Some (Num (if n < 1000000 then n * 1000 else n)))
     \<and> (\<forall>d. mv ''duration_ms'' = Some d \<and> d \<noteq> [] \<and> parseInt d (Some 10) = NaN \<longrightarrow>
            duration_ms (processRecord h k mv raw) = Some NaN)
     \<and> (mv ''duration_ms'' = Some ''500'' \<longrightarrow> duration_ms (processRecord h k mv raw) = Some (Num 500000))
     \<and> (mv ''duration_ms'' = Some ''2000000'' \<longrightarrow>
            duration_ms (processRecord h k mv raw) = Some (Num 2000000))
     \<and> (\<forall>s e ts te. \<not> truthy (mv ''duration_ms'') \<and> mv ''start_time'' = Some s
              \<and> mv ''end_time'' = Some e \<and> e \<noteq> []
              \<and> Date_parse h s = Num ts \<and> Date_parse h e = Num te
              \<and> \<bar>te - ts\<bar> \<le> 9007199254740992 \<longrightarrow>
            duration_ms (processRecord h k mv raw) = Some (Num (te - ts)))
     \<and> (\<not> truthy (mv ''duration_ms'') \<and> \<not> truthy (mv ''end_time'') \<longrightarrow>
            duration_ms (processRecord h k mv raw) = None)
     \<and> truthy (mv ''start_time'')"
proof -
  from valid_start_time [OF assms]
  obtain s t where s: "mv ''start_time'' = Some s" "s \<noteq> []" "Date_parse h s = Num t" by blast
  have a: "duration_ms (processRecord h k mv raw) = Some (Num (if n < 1000000 then n * 1000 else n))"
    if "mv ''duration_ms'' = Some d" "d \<noteq> []" "parseInt d (Some 10) = Num n" for d n
    using that by (simp add: processRecord_def Let_def truthy_def jsLess_def jsTimes_def)
  have a': "duration_ms (processRecord h k mv raw) = Some NaN"
    if "mv ''duration_ms'' = Some d" "d \<noteq> []" "parseInt d (Some 10) = NaN" for d
    using that by (simp add: processRecord_def Let_def truthy_def jsLess_def)
  have ne5: "''500'' \<noteq> []" and ne2: "''2000000'' \<noteq> []" by simp_all
  have b: "duration_ms (processRecord h k mv raw) = Some (Num 500000)"
    if "mv ''duration_ms'' = Some ''500''"
    using a [OF that ne5 parseInt_500] by simp
  have c: "duration_ms (processRecord h k mv raw) = Some (Num 2000000)"
    if "mv ''duration_ms'' = Some ''2000000''"
    using a [OF that ne2 parseInt_2000000] by simp
  have d: "duration_ms (processRecord h k mv raw) = Some (Num (te - ts))"
    if "\<not> truthy (mv ''duration_ms'')" "mv ''start_time'' = Some s'" "mv ''end_time'' = Some e"
      "e \<noteq> []" "Date_parse h s' = Num ts" "Date_parse h e = Num te"
    for s' e ts te
    using that s by (simp add: processRecord_def Let_def truthy_def jsMinus_def)
  have e: "duration_ms (processRecord h k mv raw) = None"
    if "\<not> truthy (mv ''duration_ms'')" "\<not> truthy (mv ''end_time'')"
    using that by (simp add: processRecord_def Let_def)
  have f: "truthy (mv ''start_time'')" using s by (simp add: truthy_def)
  from a a' b c d e f show ?thesis by blast
qed

text \<open>
  The theorem of C6 at three accepted sample rows: a raw duration of 500, no duration
  and an end time ten seconds after the start, and neither a duration nor an end time.
\<close>

theorem duration_ms_inference_witness:
  "recIsValid (validateRecord sample_host (extractMappedValues sample_mapping sample_row) sample_row)
   \<and> extractMappedValues sample_mapping sample_row ''duration_ms'' = Some ''500''
   \<and> duration_ms (processRecord sample_host 0 (extractMappedValues sample_mapping sample_row) sample_row)
       = Some (Num 500000)
   \<and> recIsValid (validateRecord sample_host
        (extractMappedValues sample_mapping sample_row_end_time) sample_row_end_time)
   \<and> duration_ms (processRecord sample_host 0
        (extractMappedValues sample_mapping sample_row_end_time) sample_row_end_time)
       = Some (Num 10000)
   \<and> recIsValid (validateRecord sample_host
        (extractMappedValues sample_mapping sample_row_no_duration) sample_row_no_duration)
   \<and> duration_ms (processRecord sample_host 0
        (extractMappedValues sample_mapping sample_row_no_duration) sample_row_no_duration)
       = None"
proof -
  note T1 = duration_ms_inference [OF sample_valid, of 0]
  note T2 = duration_ms_inference [OF sample_end_time_valid, of 0]
  note T3 = duration_ms_inference [OF sample_no_duration_valid, of 0]
  have d: "extractMappedValues sample_mapping sample_row ''duration_ms'' = Some ''500''"
    by (simp add: sample_mv)
  have b1: "- 9007199254740 \<le> (500 :: int) \<and> (500 :: int) \<le> 9007199254740992" by simp
  have ne: "''500'' \<noteq> []" by simp
  from T1 d ne parseInt_500 b1
  have "duration_ms (processRecord sample_host 0
        (extractMappedValues sample_mapping sample_row) sample_row)
       = Some (Num (if (500 :: int) < 1000000 then 500 * 1000 else 500))"
    by blast
  then have r1: "duration_ms (processRecord sample_host 0
        (extractMappedValues sample_mapping sample_row) sample_row) = Some (Num 500000)"
    by simp
  have ps: "Date_parse sample_host ''2024-01-01T00:00:00Z'' = Num 1704067200000"
    and pe: "Date_parse sample_host ''2024-01-01T00:00:10Z'' = Num 1704067210000"
    by (simp_all add: sample_host_def)
  have nt: "\<not> truthy (Some '''')" by (simp add: truthy_def)
  have b2: "\<bar>(1704067210000 :: int) - 1704067200000\<bar> \<le> 9007199254740992" by simp
  have ne2: "''2024-01-01T00:00:10Z'' \<noteq> []" by simp
  from T2 sample_end_time_mv ps pe nt b2 ne2
  have "duration_ms (processRecord sample_host 0
        (extractMappedValues sample_mapping sample_row_end_time) sample_row_end_time)
       = Some (Num (1704067210000 - 1704067200000))"
    by metis
  then have r2: "duration_ms (processRecord sample_host 0
        (extractMappedValues sample_mapping sample_row_end_time) sample_row_end_time)
       = Some (Num 10000)"
    by simp
  from T3 sample_no_duration_mv nt
  have r3: "duration_ms (processRecord sample_host 0
        (extractMappedValues sample_mapping sample_row_no_duration) sample_row_no_duration)
       = None"
    by metis
  show ?thesis
    by (intro conjI)
       (fact sample_valid d r1 sample_end_time_valid r2 sample_no_duration_valid r3)+
qed

section \<open>Properties of a run over the rows of a file\<close>

lemma transform_mapping: "mapping (fst (transform h st raw)) = mapping st"
  by (simp add: transform_def Let_def split: sum.splits)

lemma transform_validationErrors_length:
  "length (validationErrors (fst (transform h st raw))) =
     length (validationErrors st)
     + (if recIsValid (validateRecord h (extractMappedValues (mapping st) raw) raw) then 0 else 1)"
  by (simp add: transform_def Let_def split: sum.splits)

lemma transform_recordCount:
  "recordCount (fst (transform h st raw)) =
     recordCount st + (case snd (transform h st raw) of None \<Rightarrow> 0 | Some l \<Rightarrow> 1)"
  by (simp add: transform_def Let_def split: sum.splits)

lemma transform_total:
  "recordCount (fst (transform h st raw)) + errorCount (fst (transform h st raw)) =
     recordCount st + errorCount st + 1"
  by (simp add: transform_def Let_def split: sum.splits)

lemma runRows_Cons:
  "runRows h st (r # rs) =
     (fst (runRows h (fst (transform h st r)) rs),
      (case snd (transform h st r) of None \<Rightarrow> [] | Some l \<Rightarrow> [l])
        @ snd (runRows h (fst (transform h st r)) rs))"
  by (simp split: prod.splits option.splits)

lemma runRows_mapping: "mapping (fst (runRows h st rows)) = mapping st"
  by (induction rows arbitrary: st) (simp_all add: runRows_Cons transform_mapping del: runRows.simps(2))

lemma runRows_validationErrors_length:
  "length (validationErrors (fst (runRows h st rows))) =
     length (validationErrors st)
     + length (filter (\<lambda>r. \<not> recIsValid (validateRecord h (extractMappedValues (mapping st) r) r)) rows)"
proof (induction rows arbitrary: st)
  case Nil
  show ?case by simp
next
  case (Cons r rs)
  show ?case
    unfolding runRows_Cons fst_conv Cons.IH transform_mapping transform_validationErrors_length
    by simp
qed

lemma runRows_recordCount:
  "recordCount (fst (runRows h st rows)) = recordCount st + length (snd (runRows h st rows))"
proof (induction rows arbitrary: st)
  case Nil
  show ?case by simp
next
  case (Cons r rs)
  show ?case
    unfolding runRows_Cons fst_conv snd_conv Cons.IH transform_recordCount
    by (simp split: option.splits)
qed

lemma runRows_total:
  "recordCount (fst (runRows h st rows)) + errorCount (fst (runRows h st rows)) =
     recordCount st + errorCount st + length rows"
proof (induction rows arbitrary: st)
  case Nil
  show ?case by simp
next
  case (Cons r rs)
  show ?case
    unfolding runRows_Cons fst_conv Cons.IH transform_total
    by simp
qed

lemma runRows_append:
  "runRows h st (xs @ ys) =
     (fst (runRows h (fst (runRows h st xs)) ys),
      snd (runRows h st xs) @ snd (runRows h (fst (runRows h st xs)) ys))"
  by (induction xs arbitrary: st) (simp_all add: runRows_Cons del: runRows.simps(2))

lemma transform_sample_row:
  assumes "mapping st = sample_mapping"
  shows "snd (transform sample_host st sample_row) \<noteq> None"
  using assms sample_valid sample_line by (simp add: transform_def Let_def)

lemma transform_sample_row_missing_dst_ip:
  assumes "mapping st = sample_mapping"
  shows "snd (transform sample_host st sample_row_missing_dst_ip) = None"
proof -
  have "\<not> recIsValid (validateRecord sample_host
          (extractMappedValues sample_mapping sample_row_missing_dst_ip) sample_row_missing_dst_ip)"
    using validateRecord_invalid_iff sample_missing_dst_ip
    by (metis keys_REQUIRED_FIELDS list.set_intros(1,2))
  then show ?thesis using assms by (simp add: transform_invalid)
qed

lemma sample_run_accepted:
  "mapping st = sample_mapping \<Longrightarrow> length (snd (runRows sample_host st (replicate n sample_row))) = n"
proof (induction n arbitrary: st)
  case 0
  show ?case by simp
next
  case (Suc n)
  have "mapping (fst (transform sample_host st sample_row)) = sample_mapping"
    using Suc.prems by (simp add: transform_mapping)
  from Suc.IH [OF this] transform_sample_row [OF Suc.prems]
  show ?case
    unfolding replicate_Suc runRows_Cons by (auto split: option.splits)
qed

lemma sample_run_rejected:
  "mapping st = sample_mapping \<Longrightarrow> snd (runRows sample_host st (replicate n sample_row_missing_dst_ip)) = []"
proof (induction n arbitrary: st)
  case 0
  show ?case by simp
next
  case (Suc n)
  have "mapping (fst (transform sample_host st sample_row_missing_dst_ip)) = sample_mapping"
    using Suc.prems by (simp add: transform_mapping)
  from Suc.IH [OF this] transform_sample_row_missing_dst_ip [OF Suc.prems]
  show ?case
    unfolding replicate_Suc runRows_Cons by simp
qed

lemma sample_rejected_run:
  "length (validationErrors (fst (runRows sample_host (newProcessor sample_mapping)
      (replicate n sample_row_missing_dst_ip)))) = n"
proof -
  have "\<not> recIsValid (validateRecord sample_host
          (extractMappedValues sample_mapping sample_row_missing_dst_ip) sample_row_missing_dst_ip)"
    using validateRecord_invalid_iff sample_missing_dst_ip
    by (metis keys_REQUIRED_FIELDS list.set_intros(1,2))
  then show ?thesis
    unfolding runRows_validationErrors_length by (simp add: newProcessor_def)
qed

subsection \<open>The retained diagnostics\<close>

text \<open>
  Claim C5, as amended. The list \<open>validationErrors\<close> is not bounded: after a run from a
  new processor it holds exactly one entry for each row that data-level validation
  rejected (rows dropped by a caught exception add none), and \<open>getProcessingStats\<close> reports
  the whole list. The only cap in the source is on the sample that \<open>processFile\<close> writes to
  the console, which shows the first 5 entries.
\<close>

theorem validationErrors_one_per_rejected_row:
  "length (stat_validationErrors (getProcessingStats (fst (runRows h (newProcessor m) rows)))) =
     length (filter (\<lambda>r. \<not> recIsValid (validateRecord h (extractMappedValues m r) r)) rows)
   \<and> length (firstFewValidationErrors (getProcessingStats (fst (runRows h (newProcessor m) rows)))) =
       min 5 (length (filter (\<lambda>r. \<not> recIsValid (validateRecord h (extractMappedValues m r) r)) rows))"
proof -
  have "length (validationErrors (fst (runRows h (newProcessor m) rows))) =
      length (filter (\<lambda>r. \<not> recIsValid (validateRecord h (extractMappedValues m r) r)) rows)"
    unfolding runRows_validationErrors_length by (simp add: newProcessor_def)
  then show ?thesis
    by (simp add: getProcessingStats_def firstFewValidationErrors_def min.commute)
qed

text \<open>
  The theorem of C5 at a file of seven rows, six of them with an empty destination
  address: six diagnostics are retained, and five are shown.
\<close>

theorem validationErrors_one_per_rejected_row_witness:
  "length (stat_validationErrors (getProcessingStats (fst (runRows sample_host
       (newProcessor sample_mapping) (sample_row # replicate 6 sample_row_missing_dst_ip))))) = 6
   \<and> length (firstFewValidationErrors (getProcessingStats (fst (runRows sample_host
       (newProcessor sample_mapping) (sample_row # replicate 6 sample_row_missing_dst_ip))))) = 5"
proof -
  have bad: "\<not> recIsValid (validateRecord sample_host
          (extractMappedValues sample_mapping sample_row_missing_dst_ip) sample_row_missing_dst_ip)"
    using validateRecord_invalid_iff sample_missing_dst_ip
    by (metis keys_REQUIRED_FIELDS list.set_intros(1,2))
  have "length (filter (\<lambda>r. \<not> recIsValid (validateRecord sample_host
          (extractMappedValues sample_mapping r) r))
        (sample_row # replicate 6 sample_row_missing_dst_ip)) = 6"
    using sample_valid bad by simp
  then show ?thesis
    using validationErrors_one_per_rejected_row
      [of sample_host sample_mapping "sample_row # replicate 6 sample_row_missing_dst_ip"]
    by simp
qed

text \<open>
  Claim C5 as stated fails: no bound holds for the list, since a file of \<open>n\<close> rows with
  an empty destination address leaves \<open>n\<close> diagnostics.
\<close>

theorem validationErrors_unbounded_counterexample:
  "\<not> (\<exists>B. \<forall>n. length (validationErrors (fst (runRows sample_host (newProcessor sample_mapping)
      (replicate n sample_row_missing_dst_ip)))) \<le> B)"
  unfolding sample_rejected_run by (meson not_less_eq_eq order_refl)

subsection \<open>The statistics\<close>

lemma toFixed2_close:
  assumes "0 \<le> x" and "x \<le> 100"
  shows "\<exists>n \<le> 10000.
           toFixed2 x = showNat (n div 100) @ ''.'' @ [digitChar (n mod 100 div 10), digitChar (n mod 10)]
           \<and> \<bar>of_nat n / 100 - x\<bar> \<le> 1 / 200"
proof -
  define n where "n = nat \<lfloor>\<bar>x\<bar> * 100 + 1 / 2\<rfloor>"
  have ax: "\<bar>x\<bar> = x" using assms(1) by simp
  have nonneg: "0 \<le> \<lfloor>x * 100 + 1 / 2\<rfloor>" using assms(1) by simp
  then have n: "of_nat n = (of_int \<lfloor>x * 100 + 1 / 2\<rfloor> :: rat)"
    unfolding n_def ax by simp
  define y where "y = (of_int \<lfloor>x * 100 + 1 / 2\<rfloor> :: rat)"
  have lo: "y \<le> x * 100 + 1 / 2" unfolding y_def by (rule of_int_floor_le)
  have hi: "x * 100 + 1 / 2 < y + 1"
    unfolding y_def using floor_correct [of "x * 100 + 1 / 2"] by simp
  have "\<bar>y / 100 - x\<bar> \<le> 1 / 200"
    using lo hi by linarith
  then have close: "\<bar>of_nat n / 100 - x\<bar> \<le> 1 / 200"
    unfolding n y_def .
  have "\<lfloor>x * 100 + 1 / 2\<rfloor> \<le> \<lfloor>(10000 :: rat) + 1 / 2\<rfloor>"
    using assms(2) by (intro floor_mono) simp
  also have "\<lfloor>(10000 :: rat) + 1 / 2\<rfloor> = 10000" by (rule floor_unique) simp_all
  finally have "\<lfloor>x * 100 + 1 / 2\<rfloor> \<le> 10000" .
  then have le: "n \<le> 10000" unfolding n_def ax by linarith
  have "toFixed2 x = showNat (n div 100) @ ''.'' @ [digitChar (n mod 100 div 10), digitChar (n mod 10)]"
    using assms(1) unfolding toFixed2_def n_def [symmetric] Let_def by simp
  with le close show ?thesis by blast
qed

lemma ratio_bounds:
  "0 \<le> (of_nat r / of_nat (r + e)) * (100 :: rat) \<and> (of_nat r / of_nat (r + e)) * (100 :: rat) \<le> 100"
proof -
  define q where "q = (of_nat r :: rat) / of_nat (r + e)"
  have "q \<le> 1"
  proof (cases "r + e = 0")
    case True
    then show ?thesis unfolding q_def by simp
  next
    case False
    then have "0 < r + e" by simp
    then have "(0 :: rat) < of_nat (r + e)" by (simp only: of_nat_0_less_iff)
    moreover have "(of_nat r :: rat) \<le> of_nat (r + e)" by (simp only: of_nat_le_iff le_add1)
    ultimately show ?thesis unfolding q_def by (simp only: divide_le_eq_1_pos)
  qed
  moreover have "0 \<le> q" unfolding q_def by simp
  ultimately have "0 \<le> q * 100 \<and> q * 100 \<le> 100" by simp
  then show ?thesis unfolding q_def .
qed

lemma toFixed2_95: "toFixed2 ((of_nat (95 :: nat) / of_nat ((95 :: nat) + 5)) * 100) = ''95.00''"
proof -
  have "\<lfloor>(19001 :: rat) / 2\<rfloor> = 9500" by (rule floor_unique) simp_all
  then show ?thesis by (simp add: toFixed2_def Let_def show_eval)
qed

text \<open>
  Claim C8. \<open>getProcessingStats\<close> reports \<open>recordCount\<close> and \<open>errorCount\<close>, and as success
  rate the percentage \<open>recordCount / (recordCount + errorCount)\<close> rounded to two
  decimals: the text of \<open>n / 100\<close> for an integer \<open>n\<close> within half a hundredth of the
  percentage when a record has been accepted, and the number 0 when none has (in
  particular when no row has been seen). A run over 100 rows that emits 95 of them
  reports 95 records, 5 errors and the success rate \<open>"95.00"\<close>.
\<close>

theorem getProcessingStats_successRate:
  "totalProcessed (getProcessingStats st) = recordCount st
   \<and> stat_errors (getProcessingStats st) = errorCount st
   \<and> (0 < recordCount st \<longrightarrow>
        (\<exists>n \<le> 10000.
           successRate (getProcessingStats st) =
             JStr (showNat (n div 100) @ ''.'' @ [digitChar (n mod 100 div 10), digitChar (n mod 10)])
           \<and> \<bar>of_nat n / 100 - (of_nat (recordCount st) / of_nat (recordCount st + errorCount st)) * 100\<bar>
               \<le> (1 / 200 :: rat)))
   \<and> (recordCount st = 0 \<longrightarrow> successRate (getProcessingStats st) = JNum (Num 0))
   \<and> (length rows = 100 \<and> length (snd (runRows h (newProcessor m) rows)) = 95 \<longrightarrow>
        totalProcessed (getProcessingStats (fst (runRows h (newProcessor m) rows))) = 95
        \<and> stat_errors (getProcessingStats (fst (runRows h (newProcessor m) rows))) = 5
        \<and> successRate (getProcessingStats (fst (runRows h (newProcessor m) rows))) = JStr ''95.00'')"
proof -
  have a: "\<exists>n \<le> 10000.
           successRate (getProcessingStats st) =
             JStr (showNat (n div 100) @ ''.'' @ [digitChar (n mod 100 div 10), digitChar (n mod 10)])
           \<and> \<bar>of_nat n / 100 - (of_nat (recordCount st) / of_nat (recordCount st + errorCount st)) * 100\<bar>
               \<le> (1 / 200 :: rat)"
    if "0 < recordCount st"
    using that toFixed2_close [OF ratio_bounds [THEN conjunct1] ratio_bounds [THEN conjunct2],
        of "recordCount st" "errorCount st"]
    by (simp add: getProcessingStats_def)
  have b: "successRate (getProcessingStats st) = JNum (Num 0)" if "recordCount st = 0"
    using that by (simp add: getProcessingStats_def)
  have c: "totalProcessed (getProcessingStats (fst (runRows h (newProcessor m) rows))) = 95
        \<and> stat_errors (getProcessingStats (fst (runRows h (newProcessor m) rows))) = 5
        \<and> successRate (getProcessingStats (fst (runRows h (newProcessor m) rows))) = JStr ''95.00''"
    if "length rows = 100" "length (snd (runRows h (newProcessor m) rows)) = 95"
  proof -
    let ?st = "fst (runRows h (newProcessor m) rows)"
    have rc: "recordCount ?st = 95"
      using runRows_recordCount [of h "newProcessor m" rows] that(2) by (simp add: newProcessor_def)
    have "recordCount ?st + errorCount ?st = 100"
      using runRows_total [of h "newProcessor m" rows] that(1) by (simp add: newProcessor_def)
    with rc have ec: "errorCount ?st = 5" by simp
    show ?thesis
      using toFixed2_95 by (simp add: getProcessingStats_def rc ec)
  qed
  have t: "totalProcessed (getProcessingStats st) = recordCount st"
    by (simp add: getProcessingStats_def)
  have e: "stat_errors (getProcessingStats st) = errorCount st"
    by (simp add: getProcessingStats_def)
  show ?thesis using t e a b c by blast
qed

text \<open>
  The theorem of C8 at a file of 100 rows: 95 accepted rows and 5 rows with an empty
  destination address.
\<close>

theorem getProcessingStats_successRate_witness:
  "length (replicate 95 sample_row @ replicate 5 sample_row_missing_dst_ip) = 100
   \<and> length (snd (runRows sample_host (newProcessor sample_mapping)
        (replicate 95 sample_row @ replicate 5 sample_row_missing_dst_ip))) = 95
   \<and> totalProcessed (getProcessingStats (fst (runRows sample_host (newProcessor sample_mapping)
        (replicate 95 sample_row @ replicate 5 sample_row_missing_dst_ip)))) = 95
   \<and> stat_errors (getProcessingStats (fst (runRows sample_host (newProcessor sample_mapping)
        (replicate 95 sample_row @ replicate 5 sample_row_missing_dst_ip)))) = 5
   \<and> successRate (getProcessingStats (fst (runRows sample_host (newProcessor sample_mapping)
        (replicate 95 sample_row @ replicate 5 sample_row_missing_dst_ip)))) = JStr ''95.00''"
proof -
  have m: "mapping (newProcessor sample_mapping) = sample_mapping"
    by (simp add: newProcessor_def)
  have m': "mapping (fst (runRows sample_host (newProcessor sample_mapping) (replicate 95 sample_row)))
      = sample_mapping"
    by (simp add: runRows_mapping m)
  have l: "length (replicate 95 sample_row @ replicate 5 sample_row_missing_dst_ip) = 100" by simp
  have o: "length (snd (runRows sample_host (newProcessor sample_mapping)
        (replicate 95 sample_row @ replicate 5 sample_row_missing_dst_ip))) = 95"
    unfolding runRows_append snd_conv
    by (simp add: sample_run_accepted [OF m] sample_run_rejected [OF m'])
  from getProcessingStats_successRate
    [of "newProcessor sample_mapping" "replicate 95 sample_row @ replicate 5 sample_row_missing_dst_ip"
        sample_host sample_mapping] l o
  show ?thesis by blast
qed

section \<open>Properties of the encoder\<close>

lemma startsWith_single: "startsWith s [c] \<longleftrightarrow> (\<exists>t. s = c # t)"
  by (cases s) auto

lemma str_includes_single: "str_includes s [c] \<longleftrightarrow> c \<in> set s"
  by (induction s) (auto simp: startsWith_single)

lemma csvEscape_cases:
  "csvEscape s =
     (if CHR '','' \<in> set s \<or> dquote \<in> set s \<or> newline \<in> set s
      then [dquote] @ concat (map (\<lambda>c. if c = dquote then [dquote, dquote] else [c]) s) @ [dquote]
      else s)"
proof -
  have "str_includes s '','' \<longleftrightarrow> CHR '','' \<in> set s" by (rule str_includes_single)
  then show ?thesis by (simp add: csvEscape_def str_includes_single)
qed

lemma csvEscape_quoted_iff:
  "startsWith (csvEscape s) [dquote]
     \<longleftrightarrow> (CHR '','' \<in> set s \<or> dquote \<in> set s \<or> newline \<in> set s)"
  unfolding csvEscape_cases by (cases s) auto

lemma spec_unquote_escaped:
  "spec_unquote (concat (map (\<lambda>c. if c = dquote then [dquote, dquote] else [c]) s) @ [dquote]) = Some s"
proof (induction s)
  case Nil
  show ?case by simp
next
  case (Cons c cs)
  show ?case
  proof (cases "c = dquote")
    case True
    then show ?thesis using Cons.IH by simp
  next
    case False
    obtain d ds where r: "concat (map (\<lambda>c. if c = dquote then [dquote, dquote] else [c]) cs) @ [dquote] = d # ds"
      by (cases "concat (map (\<lambda>c. if c = dquote then [dquote, dquote] else [c]) cs) @ [dquote]") auto
    have "spec_unquote (c # d # ds) = map_option ((#) c) (spec_unquote (d # ds))"
      using False by simp
    then show ?thesis using Cons.IH False unfolding r [symmetric] by simp
  qed
qed

lemma csvDecode_csvEscape: "spec_csvDecodeField (csvEscape s) = Some s"
proof (cases "CHR '','' \<in> set s \<or> dquote \<in> set s \<or> newline \<in> set s")
  case True
  then show ?thesis
    unfolding csvEscape_cases using spec_unquote_escaped [of s]
    by (simp add: spec_csvDecodeField_def)
next
  case False
  then show ?thesis
    unfolding csvEscape_cases by (cases s) (auto simp: spec_csvDecodeField_def)
qed

lemma digitChar_digit: "d < 10 \<Longrightarrow> isDigit (digitChar d)"
  unfolding digitChar_def isDigit_def by (rule nth_mem) simp

lemma showNat_digits: "c \<in> set (showNat n) \<Longrightarrow> isDigit c"
proof (induction n rule: showNat.induct)
  case (1 n)
  show ?case
  proof (cases "n < 10")
    case True
    then have "showNat n = [digitChar n]" by (rule showNat_small)
    with "1.prems" True show ?thesis using digitChar_digit [of n] by simp
  next
    case False
    then have eq: "showNat n = showNat (n div 10) @ [digitChar (n mod 10)]"
      by (simp add: showNat_big)
    have "isDigit (digitChar (n mod 10))" by (rule digitChar_digit) simp
    with "1.prems" "1.IH" [OF False] show ?thesis unfolding eq by auto
  qed
qed

lemma showNat_nonempty: "showNat n \<noteq> []"
proof (cases "n < 10")
  case True
  then show ?thesis by (simp add: showNat_small)
next
  case False
  then have "showNat n = showNat (n div 10) @ [digitChar (n mod 10)]"
    by (simp add: showNat_big)
  then show ?thesis by simp
qed

lemma isDigit_plain: "isDigit c \<Longrightarrow> c \<noteq> CHR '','' \<and> c \<noteq> dquote \<and> c \<noteq> newline"
  by (auto simp: isDigit_def dquote_def newline_def)

lemma showInt_chars:
  assumes "c \<in> set (showInt i)"
  shows "c \<noteq> CHR '','' \<and> c \<noteq> dquote \<and> c \<noteq> newline"
proof (cases "i < 0")
  case True
  with assms have "c = CHR ''-'' \<or> c \<in> set (showNat (nat (- i)))"
    by (simp add: showInt_def)
  then show ?thesis
  proof
    assume "c = CHR ''-''"
    then show ?thesis by (simp add: dquote_def newline_def)
  next
    assume "c \<in> set (showNat (nat (- i)))"
    then show ?thesis using showNat_digits isDigit_plain by blast
  qed
next
  case False
  with assms have "c \<in> set (showNat (nat i))" by (simp add: showInt_def)
  then show ?thesis using showNat_digits isDigit_plain by blast
qed

lemma csvEscape_showInt: "csvEscape (showInt i) = showInt i"
proof -
  have "CHR '','' \<notin> set (showInt i)" "dquote \<notin> set (showInt i)" "newline \<notin> set (showInt i)"
    using showInt_chars [of _ i] by blast+
  then show ?thesis unfolding csvEscape_cases by simp
qed

lemma toCsv_JNum_no_newline:
  assumes "toCsv h (JNum x) = Inr f"
  shows "newline \<notin> set f"
proof (cases x)
  case NaN
  with assms show ?thesis by (simp add: toCsv_def isNaN_def)
next
  case (Num n)
  with assms have "f = showInt n"
    by (simp add: toCsv_def isNaN_def numberToString_def csvEscape_showInt)
  then show ?thesis using showInt_chars [of newline n] by blast
qed

lemma collect_snoc:
  "collect (xs @ [x]) = Inr fs \<Longrightarrow> \<exists>fs' f. fs = fs' @ [f] \<and> collect xs = Inr fs' \<and> x = Inr f"
proof (induction xs arbitrary: fs)
  case Nil
  then show ?case by (cases x) auto
next
  case (Cons a xs)
  then show ?case by (cases a) (auto split: sum.splits)
qed

lemma join_snoc: "fs \<noteq> [] \<Longrightarrow> join sep (fs @ [f]) = join sep fs @ sep @ f"
  by (induction sep fs rule: join.induct) simp_all

lemma recordToCsv_single_newline:
  assumes "recordToCsv h r = Inr line"
  shows "\<exists>body. line = body @ [newline] \<and> body \<noteq> [] \<and> last body \<noteq> newline"
proof -
  let ?front = "[toCsv h (JStr (a_party_id r)),
         toCsv h (JDate (start_time r)),
         toCsv h (optDate (end_time r)),
         toCsv h (optNum (duration_ms r)),
         toCsv h (optStr (nat_ip r)),
         toCsv h (optNum (nat_port r)),
         toCsv h (optStr (src_ip r)),
         toCsv h (optNum (src_port r)),
         toCsv h (optStr (dst_ip r)),
         toCsv h (optNum (dst_port r)),
         toCsv h (JStr (protocol r)),
         toCsv h (JStr (service_label r)),
         toCsv h (JNum (bytes_up r))]"
  from assms obtain fs where fs: "collect (?front @ [toCsv h (JNum (bytes_down r))]) = Inr fs"
    and line: "line = join '','' fs @ [newline]"
    unfolding recordToCsv_def by (auto split: sum.splits)
  from collect_snoc [OF fs] obtain fs' f where
    f: "fs = fs' @ [f]" "collect ?front = Inr fs'" "toCsv h (JNum (bytes_down r)) = Inr f"
    by blast
  from collect_Inr_length [OF f(2)] have "fs' \<noteq> []" by auto
  then have body: "join '','' fs = (join '','' fs' @ '','') @ f"
    unfolding f(1) by (simp add: join_snoc)
  have "newline \<notin> set f" using f(3) by (rule toCsv_JNum_no_newline)
  then have "last ((join '','' fs' @ '','') @ f) \<noteq> newline"
  proof (cases "f = []")
    case True
    then show ?thesis by (simp add: newline_def)
  next
    case False
    then have "last ((join '','' fs' @ '','') @ f) \<in> set f" by simp
    with \<open>newline \<notin> set f\<close> show ?thesis by metis
  qed
  moreover have "join '','' fs \<noteq> []" unfolding body by simp
  ultimately show ?thesis using line body by metis
qed

lemma example_escape: \<open>csvEscape ''a,"b"'' = ''"a,""b"""''\<close>
  by (simp add: csvEscape_def dquote_def newline_def)

text \<open>
  Claim C7. The encoder wraps the string form of a value in double quotes, with every
  inner double quote doubled, iff the string form contains a comma, a double quote or a
  newline, and leaves it as it is otherwise; this holds for strings and for numbers
  (whose digits never need quotes), while a valid Date is written as its ISO text.
  \<open>null\<close>, \<open>undefined\<close> and \<open>NaN\<close> give the empty field. Decoding an encoded string the
  standard way gives the string back. Every encoded record ends with exactly one
  newline. The value \<open>a,"b"\<close> is encoded as \<open>"a,""b"""\<close>, which decodes to \<open>a,"b"\<close>.
\<close>

theorem toCsv_quoting:
  \<open>(startsWith (csvEscape s) [dquote]
      \<longleftrightarrow> (CHR '','' \<in> set s \<or> dquote \<in> set s \<or> newline \<in> set s))
   \<and> csvEscape s =
       (if CHR '','' \<in> set s \<or> dquote \<in> set s \<or> newline \<in> set s
        then [dquote] @ concat (map (\<lambda>c. if c = dquote then [dquote, dquote] else [c]) s) @ [dquote]
        else s)
   \<and> toCsv h (JStr s) = Inr (csvEscape s)
   \<and> toCsv h (JNum (Num n)) = Inr (csvEscape (showInt n))
   \<and> csvEscape (showInt n) = showInt n
   \<and> toCsv h (JDate (Num t)) = Inr (toISOString h t)
   \<and> toCsv h JNull = Inr []
   \<and> toCsv h (JNum NaN) = Inr []
   \<and> spec_csvDecodeField (csvEscape s) = Some s
   \<and> (\<forall>line. recordToCsv h r = Inr line
         \<longrightarrow> (\<exists>body. line = body @ [newline] \<and> body \<noteq> [] \<and> last body \<noteq> newline))
   \<and> csvEscape ''a,"b"'' = ''"a,""b"""''
   \<and> spec_csvDecodeField ''"a,""b"""'' = Some ''a,"b"''\<close>
proof -
  have a: "toCsv h (JStr s) = Inr (csvEscape s)" by (simp add: toCsv_def)
  have b: "toCsv h (JNum (Num n)) = Inr (csvEscape (showInt n))"
    by (simp add: toCsv_def isNaN_def numberToString_def)
  have c: "toCsv h (JDate (Num t)) = Inr (toISOString h t)" by (simp add: toCsv_def)
  have d: "toCsv h JNull = Inr []" by (simp add: toCsv_def)
  have e: "toCsv h (JNum NaN) = Inr []" by (simp add: toCsv_def isNaN_def)
  have f: \<open>spec_csvDecodeField ''"a,""b"""'' = Some ''a,"b"''\<close>
    using csvDecode_csvEscape [of \<open>''a,"b"''\<close>] unfolding example_escape .
  have g: "\<forall>line. recordToCsv h r = Inr line
         \<longrightarrow> (\<exists>body. line = body @ [newline] \<and> body \<noteq> [] \<and> last body \<noteq> newline)"
    using recordToCsv_single_newline by blast
  show ?thesis
    by (intro conjI)
       (fact csvEscape_quoted_iff csvEscape_cases a b csvEscape_showInt c d e
          csvDecode_csvEscape g example_escape f)+
qed

text \<open>The theorem of C7 at the value \<open>a,"b"\<close> and at the record of the accepted sample row.\<close>

theorem toCsv_quoting_witness:
  \<open>toCsv sample_host (JStr ''a,"b"'') = Inr ''"a,""b"""''
   \<and> spec_csvDecodeField ''"a,""b"""'' = Some ''a,"b"''
   \<and> recordToCsv sample_host (processRecord sample_host 0
        (extractMappedValues sample_mapping sample_row) sample_row)
       = Inr (''919876543210,2024-01-01T00:00:00.000Z,,500000,,,10.0.0.1,,93.184.216.34,443,TCP,HTTPS/WEB,0,0'' @ [newline])
   \<and> last ''919876543210,2024-01-01T00:00:00.000Z,,500000,,,10.0.0.1,,93.184.216.34,443,TCP,HTTPS/WEB,0,0''
       \<noteq> newline\<close>
proof -
  note T = toCsv_quoting [of \<open>''a,"b"''\<close> sample_host 0 0
      "processRecord sample_host 0 (extractMappedValues sample_mapping sample_row) sample_row"]
  have a: \<open>toCsv sample_host (JStr ''a,"b"'') = Inr (csvEscape ''a,"b"'')\<close>
    using T by (rule conjunct2 [THEN conjunct2, THEN conjunct1])
  have b: \<open>csvEscape ''a,"b"'' = ''"a,""b"""''\<close>
    using T by (elim conjE)
  have c: \<open>spec_csvDecodeField ''"a,""b"""'' = Some ''a,"b"''\<close>
    using T by (elim conjE)
  have d: \<open>last ''919876543210,2024-01-01T00:00:00.000Z,,500000,,,10.0.0.1,,93.184.216.34,443,TCP,HTTPS/WEB,0,0''
       \<noteq> newline\<close>
    by (simp add: newline_def)
  show ?thesis
    unfolding a b by (intro conjI) (fact refl c d sample_line)+
qed

section \<open>Properties of the fuzzy matcher and of the suggested mapping\<close>

lemma spec_aliasScore_nonneg: "0 \<le> spec_aliasScore header alias"
  by (simp add: spec_aliasScore_def Let_def)

lemma matchPatterns_Cons:
  "matchPatterns (normalize header) (alias # rest) =
     (if spec_aliasScore header alias \<noteq> 0 then spec_aliasScore header alias
      else matchPatterns (normalize header) rest)"
  by (simp add: spec_aliasScore_def Let_def)

lemma matchPatterns_find:
  "matchPatterns (normalize header) aliases =
     (case find (\<lambda>a. spec_aliasScore header a \<noteq> 0) aliases of
        None \<Rightarrow> 0
      | Some a \<Rightarrow> spec_aliasScore header a)"
  by (induction aliases) (simp_all add: matchPatterns_Cons del: matchPatterns.simps(2))

lemma spec_highestScore_Cons:
  "spec_highestScore header (alias # rest) =
     max (spec_aliasScore header alias) (spec_highestScore header rest)"
  by (simp add: spec_highestScore_def)

lemma spec_highestScore_nonneg: "0 \<le> spec_highestScore header aliases"
  by (induction aliases)
     (simp_all add: spec_highestScore_Cons le_max_iff_disj, simp add: spec_highestScore_def)

lemma matchPatterns_le_highest:
  "matchPatterns (normalize header) aliases \<le> spec_highestScore header aliases"
proof (induction aliases)
  case Nil
  show ?case by (simp add: spec_highestScore_def)
next
  case (Cons a rest)
  then show ?case
    unfolding matchPatterns_Cons spec_highestScore_Cons by (simp add: le_max_iff_disj)
qed

lemma matchPatterns_zero_iff:
  "matchPatterns (normalize header) aliases = 0 \<longleftrightarrow> spec_highestScore header aliases = 0"
proof (induction aliases)
  case Nil
  show ?case by (simp add: spec_highestScore_def)
next
  case (Cons a rest)
  have "max (spec_aliasScore header a) (spec_highestScore header rest) = 0
      \<longleftrightarrow> spec_aliasScore header a = 0 \<and> spec_highestScore header rest = 0"
    using spec_aliasScore_nonneg [of header a] spec_highestScore_nonneg [of header rest]
    by (auto simp: max_def)
  with Cons show ?case
    unfolding matchPatterns_Cons spec_highestScore_Cons by simp
qed

lemma a_party_id_patterns:
  "map_of FIELD_PATTERNS ''a_party_id'' =
     Some [''msisdn'', ''imsi'', ''subscriber_id'', ''user_id'', ''calling_party'', ''a_number'',
      ''mobile_number'', ''phone_number'', ''caller_id'', ''subscriber'', ''account_id'',
      ''customer_id'']"
  by (simp add: FIELD_PATTERNS_def)

lemma dst_ip_patterns:
  "map_of FIELD_PATTERNS ''dst_ip'' =
     Some [''b_party_ip'', ''destination_ip'', ''dest_ip'', ''server_ip'', ''target_ip'', ''remote_ip'',
           ''external_ip'', ''called_ip'']"
  by (simp add: FIELD_PATTERNS_def)

lemma fuzzy_subscriber:
  "fuzzyMatchField ''subscriber'' (the (map_of FIELD_PATTERNS ''a_party_id'')) = 8 / 10"
  by code_simp

lemma highest_subscriber:
  "spec_highestScore ''subscriber'' (the (map_of FIELD_PATTERNS ''a_party_id'')) = 1"
  by code_simp

text \<open>
  Claim C3, as amended. The score of \<open>fuzzyMatchField\<close> is the score of the first alias,
  in list order, whose score is not 0, and 0 when no alias scores; the score of an alias
  is 1 on equality of the normalised strings, 0.8 on containment in either direction,
  the edit-distance similarity when it exceeds 0.7, and 0 otherwise. It never exceeds the
  highest score over the aliases, and it is 0 exactly when the highest score is 0.
\<close>

theorem fuzzyMatchField_first_scoring_alias:
  "fuzzyMatchField header aliases =
     (case find (\<lambda>a. spec_aliasScore header a \<noteq> 0) aliases of
        None \<Rightarrow> 0
      | Some a \<Rightarrow> spec_aliasScore header a)
   \<and> fuzzyMatchField header aliases \<le> spec_highestScore header aliases
   \<and> (fuzzyMatchField header aliases = 0 \<longleftrightarrow> spec_highestScore header aliases = 0)"
  unfolding fuzzyMatchField_def
  using matchPatterns_find matchPatterns_le_highest matchPatterns_zero_iff by blast

text \<open>
  The theorem of C3 at the header \<open>subscriber\<close> and the aliases of \<open>a_party_id\<close>: the first
  alias that scores is \<open>subscriber_id\<close>, by containment.
\<close>

theorem fuzzyMatchField_first_scoring_alias_witness:
  "fuzzyMatchField ''subscriber'' (the (map_of FIELD_PATTERNS ''a_party_id'')) = 8 / 10
   \<and> find (\<lambda>a. spec_aliasScore ''subscriber'' a \<noteq> 0) (the (map_of FIELD_PATTERNS ''a_party_id''))
       = Some ''subscriber_id''
   \<and> spec_aliasScore ''subscriber'' ''subscriber_id'' = 8 / 10"
proof -
  have f: "find (\<lambda>a. spec_aliasScore ''subscriber'' a \<noteq> 0) (the (map_of FIELD_PATTERNS ''a_party_id''))
       = Some ''subscriber_id''"
    by code_simp
  have s: "spec_aliasScore ''subscriber'' ''subscriber_id'' = 8 / 10"
    by code_simp
  from fuzzyMatchField_first_scoring_alias
    [of "''subscriber''" "the (map_of FIELD_PATTERNS ''a_party_id'')"]
  have "fuzzyMatchField ''subscriber'' (the (map_of FIELD_PATTERNS ''a_party_id''))
      = spec_aliasScore ''subscriber'' ''subscriber_id''"
    unfolding f by simp
  with f s show ?thesis by simp
qed

text \<open>
  Claim C3 as stated fails: for the header \<open>subscriber\<close> and the aliases of \<open>a_party_id\<close>
  the function returns 0.8, the score of \<open>subscriber_id\<close>, while the later alias
  \<open>subscriber\<close> scores 1.
\<close>

theorem fuzzyMatchField_highest_counterexample:
  "\<not> (fuzzyMatchField ''subscriber'' (the (map_of FIELD_PATTERNS ''a_party_id''))
        = spec_highestScore ''subscriber'' (the (map_of FIELD_PATTERNS ''a_party_id'')))"
  unfolding fuzzy_subscriber highest_subscriber by simp

subsection \<open>The merge with the fallback\<close>

lemma isMapped_truthy: "isMapped m f \<longleftrightarrow> truthy (m f)"
  by (cases "m f") (simp_all add: isMapped_def truthy_def)

lemma merge_fold:
  "foldl (\<lambda>ai f. if \<not> truthy (ai f) \<and> truthy (fb f) then ai(f := fb f) else ai) ai ks f =
     (if f \<in> set ks \<and> \<not> truthy (ai f) \<and> truthy (fb f) then fb f else ai f)"
proof (induction ks arbitrary: ai)
  case Nil
  show ?case by simp
next
  case (Cons k ks)
  show ?case
    unfolding foldl_Cons Cons.IH by auto
qed

lemma mergeFallback_apply:
  "mergeFallback ai fb f =
     (if f \<in> set fallbackKeys \<and> \<not> truthy (ai f) \<and> truthy (fb f) then fb f else ai f)"
  unfolding mergeFallback_def by (rule merge_fold)

lemma init_fold: "foldl (\<lambda>m f. m(f := None)) m0 ks f = (if f \<in> set ks then None else m0 f)"
  by (induction ks arbitrary: m0) auto

lemma fallback_fold:
  "distinct (map fst tbl) \<Longrightarrow>
   foldl (\<lambda>m (schemaField, patterns).
            let bestMatch = fst (bestHeader patterns hs) in
            if truthy bestMatch then m(schemaField := bestMatch) else m) m0 tbl f =
     (case map_of tbl f of
        None \<Rightarrow> m0 f
      | Some patterns \<Rightarrow>
          if truthy (fst (bestHeader patterns hs)) then fst (bestHeader patterns hs) else m0 f)"
proof (induction tbl arbitrary: m0)
  case Nil
  show ?case by simp
next
  case (Cons p tbl)
  obtain sf pats where p: "p = (sf, pats)" by (cases p)
  from Cons.prems have d: "distinct (map fst tbl)" and nin: "sf \<notin> fst ` set tbl"
    by (simp_all add: p)
  from nin have none: "map_of tbl sf = None" by (simp add: map_of_eq_None_iff)
  show ?case
    unfolding p foldl_Cons prod.case Cons.IH [OF d]
    using none by (auto simp: Let_def split: option.splits)
qed

lemma FIELD_PATTERNS_distinct: "distinct (map fst FIELD_PATTERNS)"
  by (simp add: FIELD_PATTERNS_def)

text \<open>The fallback's choice for one field: the best header for the field's patterns.\<close>

lemma createFallbackMapping_apply:
  "createFallbackMapping hs f =
     (case map_of FIELD_PATTERNS f of
        None \<Rightarrow> None
      | Some patterns \<Rightarrow>
          if truthy (fst (bestHeader patterns hs)) then fst (bestHeader patterns hs) else None)"
  unfolding createFallbackMapping_def fallback_fold [OF FIELD_PATTERNS_distinct]
  by (simp add: init_fold split: option.splits)

lemma FIELD_PATTERNS_keys: "f \<in> set (keys FIELD_PATTERNS) \<Longrightarrow> f \<in> set fallbackKeys"
  by (simp add: fallbackKeys_def)

lemma createFallbackMapping_keys:
  assumes "truthy (createFallbackMapping hs f)"
  shows "f \<in> set fallbackKeys"
proof -
  from assms have "map_of FIELD_PATTERNS f \<noteq> None"
    unfolding createFallbackMapping_apply by (auto simp: truthy_def split: option.splits)
  then have "f \<in> set (keys FIELD_PATTERNS)"
    unfolding keys_def by (simp add: map_of_eq_None_iff)
  then show ?thesis by (rule FIELD_PATTERNS_keys)
qed

lemma coverage_iff:
  "(of_nat (length (filter (isMapped aiMapping) schemaRequiredFields)) :: rat)
             < of_nat (length schemaRequiredFields) * (6 / 10)
   \<longleftrightarrow> length (filter (isMapped aiMapping) schemaRequiredFields) \<le> 2"
proof -
  have "(of_nat n :: rat) < 4 * (6 / 10) \<longleftrightarrow> n \<le> 2" for n :: nat
  proof
    assume "(of_nat n :: rat) < 4 * (6 / 10)"
    then have "(of_nat n :: rat) < of_nat 3" by simp
    then have "n < 3" by (simp only: of_nat_less_iff)
    then show "n \<le> 2" by simp
  next
    assume "n \<le> 2"
    then have "(of_nat n :: rat) \<le> of_nat 2" by (simp only: of_nat_le_iff)
    then show "(of_nat n :: rat) < 4 * (6 / 10)" by simp
  qed
  then show ?thesis by (simp add: schemaRequiredFields_eq)
qed

lemma sample_best_dst_ip:
  "fst (bestHeader [''b_party_ip'', ''destination_ip'', ''dest_ip'', ''server_ip'', ''target_ip'', ''remote_ip'',
           ''external_ip'', ''called_ip''] sample_headers) = Some ''dest_ip''"
  by code_simp

lemma sample_best_a_party_id:
  "fst (bestHeader [''msisdn'', ''imsi'', ''subscriber_id'', ''user_id'', ''calling_party'', ''a_number'',
      ''mobile_number'', ''phone_number'', ''caller_id'', ''subscriber'', ''account_id'',
      ''customer_id''] sample_headers) = Some ''MSISDN''"
  by code_simp

lemma sample_fallback_dst_ip: "createFallbackMapping sample_headers ''dst_ip'' = Some ''dest_ip''"
  unfolding createFallbackMapping_apply dst_ip_patterns option.case sample_best_dst_ip
  by (simp add: truthy_def)

lemma sample_fallback_a_party_id: "createFallbackMapping sample_headers ''a_party_id'' = Some ''MSISDN''"
  unfolding createFallbackMapping_apply a_party_id_patterns option.case sample_best_a_party_id
  by (simp add: truthy_def)

text \<open>
  Claim C4. When the parsed answer of the collaborator maps fewer than 60% of the
  required fields of the schema, the suggested mapping keeps every entry the
  collaborator provided, and each field the collaborator left unmapped gets the
  fallback's choice for it when the fallback found one (and stays as the collaborator
  left it when the fallback found none).
\<close>

theorem getSuggestedMapping_merge:
  assumes "(of_nat (length (filter (isMapped aiMapping) schemaRequiredFields)) :: rat)
             < of_nat (length schemaRequiredFields) * (6 / 10)"
  shows "(isMapped aiMapping f \<longrightarrow> getSuggestedMapping (Some aiMapping) fileHeaders f = aiMapping f)
     \<and> (\<not> isMapped aiMapping f \<and> isMapped (createFallbackMapping fileHeaders) f \<longrightarrow>
          getSuggestedMapping (Some aiMapping) fileHeaders f = createFallbackMapping fileHeaders f)
     \<and> (\<not> isMapped aiMapping f \<and> \<not> isMapped (createFallbackMapping fileHeaders) f \<longrightarrow>
          getSuggestedMapping (Some aiMapping) fileHeaders f = aiMapping f)"
proof -
  have g: "getSuggestedMapping (Some aiMapping) fileHeaders
      = mergeFallback aiMapping (createFallbackMapping fileHeaders)"
    using assms by (simp add: getSuggestedMapping_def Let_def)
  show ?thesis
    unfolding g mergeFallback_apply isMapped_truthy
    using createFallbackMapping_keys [of fileHeaders f] by simp
qed

text \<open>
  The theorem of C4 at an answer that maps two of the four required fields: the
  collaborator's header for \<open>a_party_id\<close> is kept although the fallback would choose
  another one, and \<open>dst_ip\<close> is filled from the fallback.
\<close>

theorem getSuggestedMapping_merge_witness:
  "length (filter (isMapped sample_aiMapping) schemaRequiredFields) = 2
   \<and> getSuggestedMapping (Some sample_aiMapping) sample_headers ''a_party_id'' = Some ''user_id''
   \<and> createFallbackMapping sample_headers ''a_party_id'' = Some ''MSISDN''
   \<and> getSuggestedMapping (Some sample_aiMapping) sample_headers ''dst_ip'' = Some ''dest_ip''"
proof -
  have n: "length (filter (isMapped sample_aiMapping) schemaRequiredFields) = 2"
    by (simp add: schemaRequiredFields_eq isMapped_truthy sample_aiMapping_def truthy_def)
  then have c: "(of_nat (length (filter (isMapped sample_aiMapping) schemaRequiredFields)) :: rat)
             < of_nat (length schemaRequiredFields) * (6 / 10)"
    unfolding coverage_iff by simp
  have a: "isMapped sample_aiMapping ''a_party_id''" "sample_aiMapping ''a_party_id'' = Some ''user_id''"
    by (simp_all add: isMapped_truthy sample_aiMapping_def truthy_def)
  have d: "\<not> isMapped sample_aiMapping ''dst_ip''"
    by (simp add: isMapped_truthy sample_aiMapping_def truthy_def)
  have e: "isMapped (createFallbackMapping sample_headers) ''dst_ip''"
    by (simp add: isMapped_truthy sample_fallback_dst_ip truthy_def)
  from getSuggestedMapping_merge [OF c, of "''a_party_id''" sample_headers] a
  have r1: "getSuggestedMapping (Some sample_aiMapping) sample_headers ''a_party_id'' = Some ''user_id''"
    by simp
  from getSuggestedMapping_merge [OF c, of "''dst_ip''" sample_headers] d e
  have r2: "getSuggestedMapping (Some sample_aiMapping) sample_headers ''dst_ip'' = Some ''dest_ip''"
    by (simp add: sample_fallback_dst_ip)
  from n r1 r2 sample_fallback_a_party_id show ?thesis by simp
qed


end
